theory Spec2Isabelle
  imports Main "HOL-Library.Word"
begin

section \<open>Data model\<close>

text \<open>
  \<^verbatim>\<open>dolfin::uint\<close> is \<^verbatim>\<open>unsigned int\<close>: degree-of-freedom indices, offsets and
  dimensions are 32-bit words, so \<open>+\<close> wraps as it does in the C++.
  Loop counters that stay below an \<^verbatim>\<open>unsigned int\<close> bound cannot wrap and are counted
  in \<open>nat\<close>.
\<close>

type_synonym uint = "32 word"

text \<open>
  Modelled from the spec: \<^verbatim>\<open>error(...)\<close> (dolfin/log is not among the sources). By the
  spec's error handling design every error is unrecoverable at this layer and propagates
  immediately to the caller: the function stops and its result is the error. Every
  \<^verbatim>\<open>error(...)\<close> call of the two source files is one constructor; the spec's taxonomy
  gives the names. \<open>AssertionError\<close> is a failed \<^verbatim>\<open>assert\<close>; \<open>OutOfBounds\<close> is an
  access outside a vector or raw buffer, which C++ leaves undefined: the model stops
  there, so that a result \<open>Inr\<close> is a run in which every access was in range.
\<close>

datatype error =
    OrderingError
  | MissingEntitiesError nat
  | NoSubspacesError
  | NoSubspaceSpecifiedError
  | IndexOutOfRangeError uint uint
  | UnsupportedOperationError string
  | AssertionError
  | OutOfBounds

text \<open>The format string and the arguments of each \<^verbatim>\<open>error(...)\<close> call of the source.\<close>

fun error_message :: "error \<Rightarrow> string \<times> nat list" where
  "error_message OrderingError =
     (''Mesh is not ordered according to the UFC numbering convention, consider calling mesh.order().'', [])"
| "error_message (MissingEntitiesError d) =
     (''Unable to create function space, missing entities of dimension %d. Try calling mesh.init(%d).'', [d, d])"
| "error_message NoSubspacesError =
     (''Unable to extract sub system (there are no sub systems).'', [])"
| "error_message NoSubspaceSpecifiedError =
     (''Unable to extract sub system (no sub system specified).'', [])"
| "error_message (IndexOutOfRangeError c n) =
     (''Unable to extract sub system %d (only %d sub systems defined).'', [unat c, unat n])"
| "error_message (UnsupportedOperationError msg) = (msg, [])"
| "error_message AssertionError = ([], [])"
| "error_message OutOfBounds = ([], [])"

text \<open>
  The mesh is an external collaborator. The model keeps what the two files read from it:
  the topological and geometric dimension, the number of entities of each dimension,
  whether it is ordered, and its cells in the order of \<^verbatim>\<open>CellIterator\<close> (ascending cell
  index), each cell given as the \<^verbatim>\<open>ufc::cell\<close> view that \<^verbatim>\<open>UFCCell::update\<close> builds
  for it (type \<open>'c\<close>).
\<close>

record 'c Mesh =
  topology_dim :: nat
  geometry_dim :: nat
  num_entities :: "nat \<Rightarrow> nat"
  ordered :: bool
  cells :: "'c list"

text \<open>The mesh summary \<^verbatim>\<open>ufc::mesh\<close>.\<close>

record ufc_mesh =
  topological_dimension :: nat
  geometric_dimension :: nat
  ufc_num_entities :: "nat list"

text \<open>
  Modelled from the spec: \<^verbatim>\<open>UFCMesh::init\<close> (UFCMesh.h is not among the sources). The
  spec's mesh summary holds the per-dimension entity counts of the mesh; the numbering
  data of a distributed run is left out.
\<close>

definition UFCMesh_init :: "'c Mesh \<Rightarrow> ufc_mesh" where
  "UFCMesh_init dolfin_mesh =
     \<lparr>topological_dimension = topology_dim dolfin_mesh,
      geometric_dimension = geometry_dim dolfin_mesh,
      ufc_num_entities = map (num_entities dolfin_mesh) [0..<Suc (topology_dim dolfin_mesh)]\<rparr>"

text \<open>
  The element dof descriptor \<^verbatim>\<open>ufc::dof_map\<close> is an abstract class supplied from
  outside. An object of it is a value of the state type \<open>'s\<close>; its virtual functions
  are the fields of the record below. A function that changes the object returns the
  new state. \<open>ufc_tabulate_dofs\<close> gives the values the descriptor writes to
  \<^verbatim>\<open>dofs[0]\<close>, \<^verbatim>\<open>dofs[1]\<close>, ... of the buffer it is handed.
\<close>

record ('s, 'c) ufc_dof_map =
  ufc_needs_mesh_entities :: "'s \<Rightarrow> nat \<Rightarrow> bool"
  ufc_init_mesh :: "'s \<Rightarrow> ufc_mesh \<Rightarrow> 's \<times> bool"
  ufc_init_cell :: "'s \<Rightarrow> ufc_mesh \<Rightarrow> 'c \<Rightarrow> 's"
  ufc_init_cell_finalize :: "'s \<Rightarrow> 's"
  ufc_global_dimension :: "'s \<Rightarrow> uint"
  ufc_local_dimension :: "'s \<Rightarrow> 'c \<Rightarrow> uint"
  ufc_max_local_dimension :: "'s \<Rightarrow> uint"
  ufc_num_sub_dof_maps :: "'s \<Rightarrow> uint"
  ufc_create_sub_dof_map :: "'s \<Rightarrow> uint \<Rightarrow> 's"
  ufc_tabulate_dofs :: "'s \<Rightarrow> ufc_mesh \<Rightarrow> 'c \<Rightarrow> uint list"

text \<open>
  A \<^verbatim>\<open>UFCDofMap\<close> holds a shared pointer to its descriptor, its own mesh summary and
  the offset. Several maps may point to one descriptor object (a map and its collapsed
  copy do), so the descriptor objects live in a store, a list indexed by address, and
  \<open>ufc_dofmap\<close> is an address. \<^verbatim>\<open>_parallel\<close> is read only by the constructor that takes
  a mutable mesh, which none of the functions below calls; it is left out.
\<close>

record UFCDofMap =
  ufc_dofmap :: nat
  ufc_mesh :: ufc_mesh
  ufc_offset :: uint

section \<open>UFCDofMap.cpp\<close>

subsection \<open>Initialisation\<close>

text \<open>\<^verbatim>\<open>init_ufc_mesh\<close>: the ordering check, then the summary.\<close>

definition init_ufc_mesh :: "'c Mesh \<Rightarrow> error + ufc_mesh" where
  "init_ufc_mesh dolfin_mesh =
     (if \<not> ordered dolfin_mesh then Inl OrderingError
      else Inr (UFCMesh_init dolfin_mesh))"

text \<open>
  The first loop of \<^verbatim>\<open>init_ufc_dofmap\<close>, from dimension \<open>d\<close> on: the first required
  dimension without entities is the error.
\<close>

function check_mesh_entities ::
  "('s, 'c) ufc_dof_map \<Rightarrow> 's \<Rightarrow> 'c Mesh \<Rightarrow> nat \<Rightarrow> error option" where
  "check_mesh_entities U dofmap dolfin_mesh d =
     (if d \<le> topology_dim dolfin_mesh then
        (if ufc_needs_mesh_entities U dofmap d \<and> num_entities dolfin_mesh d = 0
         then Some (MissingEntitiesError d)
         else check_mesh_entities U dofmap dolfin_mesh (Suc d))
      else None)"
  by pat_completeness auto
termination
  by (relation "measure (\<lambda>(U, dofmap, dolfin_mesh, d). Suc (topology_dim dolfin_mesh) - d)") auto

text \<open>The cell loop of \<^verbatim>\<open>init_ufc_dofmap\<close>: \<^verbatim>\<open>init_cell\<close> for each cell in turn.\<close>

fun init_cells :: "('s, 'c) ufc_dof_map \<Rightarrow> 's \<Rightarrow> ufc_mesh \<Rightarrow> 'c list \<Rightarrow> 's" where
  "init_cells U dofmap um [] = dofmap"
| "init_cells U dofmap um (ufc_cell # rest) =
     init_cells U (ufc_init_cell U dofmap um ufc_cell) um rest"

definition init_ufc_dofmap ::
  "('s, 'c) ufc_dof_map \<Rightarrow> 's \<Rightarrow> ufc_mesh \<Rightarrow> 'c Mesh \<Rightarrow> error + 's" where
  "init_ufc_dofmap U dofmap um dolfin_mesh =
     (case check_mesh_entities U dofmap dolfin_mesh 0 of
        Some e \<Rightarrow> Inl e
      | None \<Rightarrow>
          (case ufc_init_mesh U dofmap um of
             (dofmap1, init_cells_needed) \<Rightarrow>
               if init_cells_needed
               then Inr (ufc_init_cell_finalize U (init_cells U dofmap1 um (cells dolfin_mesh)))
               else Inr dofmap1))"

text \<open>
  \<^verbatim>\<open>UFCDofMap::init\<close>: the summary first, then the descriptor behind the pointer. The
  result is the store with the initialised descriptor and the map with its new summary.
\<close>

definition init ::
  "('s, 'c) ufc_dof_map \<Rightarrow> 's list \<Rightarrow> UFCDofMap \<Rightarrow> 'c Mesh \<Rightarrow> error + ('s list \<times> UFCDofMap)" where
  "init U h this dolfin_mesh =
     (case init_ufc_mesh dolfin_mesh of
        Inl e \<Rightarrow> Inl e
      | Inr um \<Rightarrow>
          if ufc_dofmap this < length h then
            (case init_ufc_dofmap U (h ! ufc_dofmap this) um dolfin_mesh of
               Inl e \<Rightarrow> Inl e
             | Inr dofmap' \<Rightarrow> Inr (h[ufc_dofmap this := dofmap'], this\<lparr>ufc_mesh := um\<rparr>))
          else Inl AssertionError)"

text \<open>
  The constructor \<^verbatim>\<open>UFCDofMap(ufc_dofmap, const Mesh&)\<close>: offset 0, the assertion on the
  pointer, then \<^verbatim>\<open>init\<close>, which overwrites the empty summary the object starts with.
\<close>

definition empty_ufc_mesh :: ufc_mesh where
  "empty_ufc_mesh = \<lparr>topological_dimension = 0, geometric_dimension = 0, ufc_num_entities = []\<rparr>"

definition new_UFCDofMap ::
  "('s, 'c) ufc_dof_map \<Rightarrow> 's list \<Rightarrow> nat \<Rightarrow> 'c Mesh \<Rightarrow> error + ('s list \<times> UFCDofMap)" where
  "new_UFCDofMap U h ptr dolfin_mesh =
     (if ptr < length h then
        init U h \<lparr>ufc_dofmap = ptr, ufc_mesh = empty_ufc_mesh, ufc_offset = 0\<rparr> dolfin_mesh
      else Inl AssertionError)"

subsection \<open>Dimensions\<close>

text \<open>
  Modelled from the spec: \<^verbatim>\<open>global_dimension\<close>, \<^verbatim>\<open>local_dimension\<close> and
  \<^verbatim>\<open>max_local_dimension\<close> of \<^verbatim>\<open>UFCDofMap\<close> are defined in UFCDofMap.h, which is not
  among the sources. By the spec the dimensions of a map are those of its descriptor.
\<close>

definition global_dimension :: "('s, 'c) ufc_dof_map \<Rightarrow> 's list \<Rightarrow> UFCDofMap \<Rightarrow> uint" where
  "global_dimension U h this = ufc_global_dimension U (h ! ufc_dofmap this)"

definition local_dimension :: "('s, 'c) ufc_dof_map \<Rightarrow> 's list \<Rightarrow> UFCDofMap \<Rightarrow> 'c \<Rightarrow> uint" where
  "local_dimension U h this ufc_cell = ufc_local_dimension U (h ! ufc_dofmap this) ufc_cell"

definition max_local_dimension :: "('s, 'c) ufc_dof_map \<Rightarrow> 's list \<Rightarrow> UFCDofMap \<Rightarrow> uint" where
  "max_local_dimension U h this = ufc_max_local_dimension U (h ! ufc_dofmap this)"

subsection \<open>Tabulation\<close>

text \<open>
  The descriptor's write of its values to the front of the buffer \<^verbatim>\<open>dofs\<close>.
\<close>

definition write_dofs :: "uint list \<Rightarrow> uint list \<Rightarrow> error + uint list" where
  "write_dofs vals dofs =
     (if length vals \<le> length dofs then Inr (vals @ drop (length vals) dofs)
      else Inl OutOfBounds)"

text \<open>The loop \<^verbatim>\<open>for (i = 0; i < local_dim; i++) dofs[i] += _ufc_offset\<close>, from \<open>i\<close> on.\<close>

function add_offset :: "nat \<Rightarrow> nat \<Rightarrow> uint \<Rightarrow> uint list \<Rightarrow> error + uint list" where
  "add_offset i local_dim off dofs =
     (if i < local_dim then
        (if i < length dofs then add_offset (Suc i) local_dim off (dofs[i := dofs ! i + off])
         else Inl OutOfBounds)
      else Inr dofs)"
  by pat_completeness auto
termination
  by (relation "measure (\<lambda>(i, local_dim, off, dofs). local_dim - i)") auto

text \<open>
  \<^verbatim>\<open>tabulate_dofs(dofs, ufc_cell, cell_index)\<close>: the buffer after the call. The cell
  index is not read by the source.
\<close>

definition tabulate_dofs ::
  "('s, 'c) ufc_dof_map \<Rightarrow> 's list \<Rightarrow> UFCDofMap \<Rightarrow> uint list \<Rightarrow> 'c \<Rightarrow> error + uint list" where
  "tabulate_dofs U h this dofs ufc_cell =
     (if ufc_dofmap this < length h then
        (case write_dofs (ufc_tabulate_dofs U (h ! ufc_dofmap this) (ufc_mesh this) ufc_cell) dofs of
           Inl e \<Rightarrow> Inl e
         | Inr dofs1 \<Rightarrow>
             if ufc_offset this > 0
             then add_offset 0 (unat (local_dimension U h this ufc_cell)) (ufc_offset this) dofs1
             else Inr dofs1)
      else Inl AssertionError)"

subsection \<open>Sub-dofmap extraction\<close>

text \<open>
  The loop over the preceding siblings in the static \<^verbatim>\<open>extract_sub_dofmap\<close>, from
  sibling \<open>i\<close> on: each sibling descriptor is created, initialised against the mesh
  and asked for its global dimension, which is added to the offset.
\<close>

function add_to_offset ::
  "('s, 'c) ufc_dof_map \<Rightarrow> 's \<Rightarrow> nat \<Rightarrow> nat \<Rightarrow> uint \<Rightarrow> ufc_mesh \<Rightarrow> 'c Mesh \<Rightarrow> error + uint" where
  "add_to_offset U parent i n offset um dolfin_mesh =
     (if i < n then
        (case init_ufc_dofmap U (ufc_create_sub_dof_map U parent (of_nat i)) um dolfin_mesh of
           Inl e \<Rightarrow> Inl e
         | Inr sibling \<Rightarrow>
             add_to_offset U parent (Suc i) n (offset + ufc_global_dimension U sibling)
               um dolfin_mesh)
      else Inr offset)"
  by pat_completeness auto
termination
  by (relation "measure (\<lambda>(U, parent, i, n, offset, um, dolfin_mesh). n - i)") auto

text \<open>
  The static, recursive \<^verbatim>\<open>extract_sub_dofmap\<close>: the three checks in the order of the
  source, the sibling loop, the sub-descriptor, and the recursion on the rest of the
  component path. The result is the descriptor and the offset (a reference parameter in
  the source).
\<close>

fun extract_sub_dofmap_static ::
  "('s, 'c) ufc_dof_map \<Rightarrow> 's \<Rightarrow> uint \<Rightarrow> uint list \<Rightarrow> ufc_mesh \<Rightarrow> 'c Mesh \<Rightarrow> error + ('s \<times> uint)" where
  "extract_sub_dofmap_static U parent offset [] um dolfin_mesh =
     (if ufc_num_sub_dof_maps U parent = 0 then Inl NoSubspacesError
      else Inl NoSubspaceSpecifiedError)"
| "extract_sub_dofmap_static U parent offset (c0 # sub_component) um dolfin_mesh =
     (if ufc_num_sub_dof_maps U parent = 0 then Inl NoSubspacesError
      else if c0 \<ge> ufc_num_sub_dof_maps U parent
        then Inl (IndexOutOfRangeError c0 (ufc_num_sub_dof_maps U parent))
      else
        (case add_to_offset U parent 0 (unat c0) offset um dolfin_mesh of
           Inl e \<Rightarrow> Inl e
         | Inr offset' \<Rightarrow>
             if sub_component = []
             then Inr (ufc_create_sub_dof_map U parent c0, offset')
             else extract_sub_dofmap_static U (ufc_create_sub_dof_map U parent c0) offset'
                    sub_component um dolfin_mesh))"

text \<open>
  The member \<^verbatim>\<open>extract_sub_dofmap\<close>: the offset starts at 0, the extracted descriptor is
  a new object of the store, a new map is constructed on it and gets the offset.
\<close>

definition extract_sub_dofmap ::
  "('s, 'c) ufc_dof_map \<Rightarrow> 's list \<Rightarrow> UFCDofMap \<Rightarrow> uint list \<Rightarrow> 'c Mesh
     \<Rightarrow> error + ('s list \<times> UFCDofMap)" where
  "extract_sub_dofmap U h this component dolfin_mesh =
     (if ufc_dofmap this < length h then
        (case extract_sub_dofmap_static U (h ! ufc_dofmap this) 0 component (ufc_mesh this)
                dolfin_mesh of
           Inl e \<Rightarrow> Inl e
         | Inr (ufc_sub_dof_map, ufc_offset') \<Rightarrow>
             (case new_UFCDofMap U (h @ [ufc_sub_dof_map]) (length h) dolfin_mesh of
                Inl e \<Rightarrow> Inl e
              | Inr (h', sub_dofmap) \<Rightarrow> Inr (h', sub_dofmap\<lparr>ufc_offset := ufc_offset'\<rparr>)))
      else Inl AssertionError)"

subsection \<open>Collapse\<close>

text \<open>
  The translation table is a reference parameter of \<^verbatim>\<open>collapse\<close>: the caller holds it
  after the call, also when the call raises. The functions of this subsection therefore
  return the table together with their outcome.

  The loop \<^verbatim>\<open>collapsed_map[collapsed_dofs[i]] = dofs[i]\<close>, from \<open>i\<close> on: the error, if
  the loop stops with one, and the table with the writes made so far.
\<close>

function add_to_map ::
  "nat \<Rightarrow> nat \<Rightarrow> uint list \<Rightarrow> uint list \<Rightarrow> (uint \<rightharpoonup> uint)
     \<Rightarrow> error option \<times> (uint \<rightharpoonup> uint)" where
  "add_to_map i n collapsed_dofs dofs collapsed_map =
     (if i < n then
        (if i < length collapsed_dofs \<and> i < length dofs
         then add_to_map (Suc i) n collapsed_dofs dofs
                (collapsed_map(collapsed_dofs ! i \<mapsto> dofs ! i))
         else (Some OutOfBounds, collapsed_map))
      else (None, collapsed_map))"
  by pat_completeness auto
termination
  by (relation "measure (\<lambda>(i, n, collapsed_dofs, dofs, collapsed_map). n - i)") auto

text \<open>
  The cell loop of \<^verbatim>\<open>collapse\<close>. The two buffers live across the iterations, as the
  two vectors of the source do.
\<close>

fun collapse_cells ::
  "('s, 'c) ufc_dof_map \<Rightarrow> 's list \<Rightarrow> UFCDofMap \<Rightarrow> UFCDofMap \<Rightarrow> 'c list \<Rightarrow> uint list \<Rightarrow> uint list
     \<Rightarrow> (uint \<rightharpoonup> uint) \<Rightarrow> error option \<times> (uint \<rightharpoonup> uint)" where
  "collapse_cells U h this collapsed_dof_map [] dofs collapsed_dofs collapsed_map =
     (None, collapsed_map)"
| "collapse_cells U h this collapsed_dof_map (ufc_cell # rest) dofs collapsed_dofs collapsed_map =
     (case tabulate_dofs U h this dofs ufc_cell of
        Inl e \<Rightarrow> (Some e, collapsed_map)
      | Inr dofs1 \<Rightarrow>
          (case tabulate_dofs U h collapsed_dof_map collapsed_dofs ufc_cell of
             Inl e \<Rightarrow> (Some e, collapsed_map)
           | Inr collapsed_dofs1 \<Rightarrow>
               (case add_to_map 0 (unat (local_dimension U h collapsed_dof_map ufc_cell))
                       collapsed_dofs1 dofs1 collapsed_map of
                  (Some e, collapsed_map1) \<Rightarrow> (Some e, collapsed_map1)
                | (None, collapsed_map1) \<Rightarrow>
                    collapse_cells U h this collapsed_dof_map rest dofs1 collapsed_dofs1
                      collapsed_map1)))"

text \<open>
  \<^verbatim>\<open>collapse\<close>, in the order of the source: the new map is constructed on the descriptor
  object of this map, which initialises that shared object again and may raise; the
  assertion on the global dimensions; only then the table handed in is cleared; the cell
  loop fills it. The result is the outcome (the error, or the new store and the
  collapsed map) and the table as the caller finds it after the call: when the
  constructor or the assertion fails, the table has not been touched. The constructor
  raises before it changes the descriptor, so after an error the store is the one before
  the call.
\<close>

definition collapse ::
  "('s, 'c) ufc_dof_map \<Rightarrow> 's list \<Rightarrow> UFCDofMap \<Rightarrow> (uint \<rightharpoonup> uint) \<Rightarrow> 'c Mesh
     \<Rightarrow> (error + ('s list \<times> UFCDofMap)) \<times> (uint \<rightharpoonup> uint)" where
  "collapse U h this collapsed_map dolfin_mesh =
     (if ufc_dofmap this < length h then
        (case new_UFCDofMap U h (ufc_dofmap this) dolfin_mesh of
           Inl e \<Rightarrow> (Inl e, collapsed_map)
         | Inr (h1, collapsed_dof_map) \<Rightarrow>
             if global_dimension U h1 collapsed_dof_map \<noteq> global_dimension U h1 this
             then (Inl AssertionError, collapsed_map)
             else
               (case collapse_cells U h1 this collapsed_dof_map (cells dolfin_mesh)
                       (replicate (unat (max_local_dimension U h1 this)) 0)
                       (replicate (unat (max_local_dimension U h1 collapsed_dof_map)) 0)
                       Map.empty of
                  (Some e, collapsed_map1) \<Rightarrow> (Inl e, collapsed_map1)
                | (None, collapsed_map1) \<Rightarrow> (Inr (h1, collapsed_dof_map), collapsed_map1)))
      else (Inl AssertionError, collapsed_map))"

subsection \<open>The set of all dofs\<close>

text \<open>
  Modelled from the spec: \<^verbatim>\<open>dolfin::Set\<close> (Set.h is not among the sources). By the spec
  \<^verbatim>\<open>dofs\<close> returns each index once, in ascending order when sorted: the set is a
  sequence, \<^verbatim>\<open>insert\<close> appends an element that is not yet in it, \<^verbatim>\<open>sort\<close> sorts it
  in ascending order.
\<close>

definition Set_insert :: "uint \<Rightarrow> uint list \<Rightarrow> uint list" where
  "Set_insert x xs = (if x \<in> set xs then xs else xs @ [x])"

definition Set_sort :: "uint list \<Rightarrow> uint list" where
  "Set_sort xs = sort xs"

text \<open>The loop \<^verbatim>\<open>dof_list.insert(dofs[i])\<close>, from \<open>i\<close> on.\<close>

function insert_dofs :: "nat \<Rightarrow> nat \<Rightarrow> uint list \<Rightarrow> uint list \<Rightarrow> error + uint list" where
  "insert_dofs i n dofs dof_list =
     (if i < n then
        (if i < length dofs then insert_dofs (Suc i) n dofs (Set_insert (dofs ! i) dof_list)
         else Inl OutOfBounds)
      else Inr dof_list)"
  by pat_completeness auto
termination
  by (relation "measure (\<lambda>(i, n, dofs, dof_list). n - i)") auto

fun dofs_cells ::
  "('s, 'c) ufc_dof_map \<Rightarrow> 's list \<Rightarrow> UFCDofMap \<Rightarrow> 'c list \<Rightarrow> uint list \<Rightarrow> uint list
     \<Rightarrow> error + uint list" where
  "dofs_cells U h this [] dofs dof_list = Inr dof_list"
| "dofs_cells U h this (ufc_cell # rest) dofs dof_list =
     (case tabulate_dofs U h this dofs ufc_cell of
        Inl e \<Rightarrow> Inl e
      | Inr dofs1 \<Rightarrow>
          (case insert_dofs 0 (unat (local_dimension U h this ufc_cell)) dofs1 dof_list of
             Inl e \<Rightarrow> Inl e
           | Inr dof_list1 \<Rightarrow> dofs_cells U h this rest dofs1 dof_list1))"

definition dofs ::
  "('s, 'c) ufc_dof_map \<Rightarrow> 's list \<Rightarrow> UFCDofMap \<Rightarrow> 'c Mesh \<Rightarrow> bool \<Rightarrow> error + uint list" where
  "dofs U h this mesh sort_flag =
     (case dofs_cells U h this (cells mesh)
             (replicate (unat (max_local_dimension U h this)) 0) [] of
        Inl e \<Rightarrow> Inl e
      | Inr dof_list \<Rightarrow> Inr (if sort_flag then Set_sort dof_list else dof_list))"

section \<open>BlockMatrix.cpp\<close>

text \<open>
  The matrices and vectors of the linear algebra backend are external: \<open>'m\<close> is a
  \<^verbatim>\<open>GenericMatrix\<close>, \<open>'v\<close> a \<^verbatim>\<open>GenericVector\<close>, and the record holds the operations
  that \<^verbatim>\<open>BlockMatrix\<close> calls. \<open>la_mult\<close> gives the vector that \<^verbatim>\<open>mult(x, y)\<close> leaves
  in \<^verbatim>\<open>y\<close>, \<open>la_add\<close> the one that \<^verbatim>\<open>y += z\<close> leaves in \<^verbatim>\<open>y\<close>.
\<close>

record ('m, 'v) linear_algebra =
  la_new_Matrix :: "'m"
  la_size :: "'m \<Rightarrow> nat \<Rightarrow> nat"
  la_mult :: "'m \<Rightarrow> 'v \<Rightarrow> 'v \<Rightarrow> 'v"
  la_create_vector :: "'m \<Rightarrow> 'v"
  la_resize :: "'v \<Rightarrow> nat \<Rightarrow> 'v"
  la_zero :: "'v \<Rightarrow> 'v"
  la_vector_size :: "'v \<Rightarrow> nat"
  la_add :: "'v \<Rightarrow> 'v \<Rightarrow> 'v"

text \<open>
  The one member of \<^verbatim>\<open>BlockMatrix\<close>: the rows of shared pointers; \<open>None\<close> is a null
  pointer. A \<^verbatim>\<open>BlockVector\<close> is the list of its blocks.
\<close>

record 'm BlockMatrix =
  matrices :: "'m option list list"

definition new_BlockMatrix :: "('m, 'v) linear_algebra \<Rightarrow> nat \<Rightarrow> nat \<Rightarrow> 'm BlockMatrix" where
  "new_BlockMatrix L m n = \<lparr>matrices = replicate m (replicate n (Some (la_new_Matrix L)))\<rparr>"

text \<open>\<^verbatim>\<open>BlockMatrix::size\<close>. \<^verbatim>\<open>matrices[0]\<close> of a matrix without rows is out of range.\<close>

definition BlockMatrix_size :: "'m BlockMatrix \<Rightarrow> uint \<Rightarrow> error + nat" where
  "BlockMatrix_size A dim =
     (if dim = 0 then Inr (length (matrices A))
      else if dim = 1 then
        (case matrices A of [] \<Rightarrow> Inl OutOfBounds | row0 # _ \<Rightarrow> Inr (length row0))
      else Inl (UnsupportedOperationError ''BlockMatrix has rank 2!''))"

text \<open>The loop over the block columns of one row of \<^verbatim>\<open>BlockMatrix::mult\<close>, from column \<open>j\<close> on.\<close>

fun mult_columns ::
  "('m, 'v) linear_algebra \<Rightarrow> 'm option list \<Rightarrow> nat \<Rightarrow> 'v list \<Rightarrow> 'v \<Rightarrow> 'v \<Rightarrow> error + ('v \<times> 'v)" where
  "mult_columns L [] j x y_row z_tmp = Inr (y_row, z_tmp)"
| "mult_columns L (block # rest) j x y_row z_tmp =
     (if j < length x then
        (case block of
           None \<Rightarrow> Inl AssertionError
         | Some a \<Rightarrow>
             (let z = la_mult L a (x ! j) z_tmp
              in mult_columns L rest (Suc j) x (la_add L y_row z) z))
      else Inl OutOfBounds)"

text \<open>The loop over the block rows, from row \<open>row\<close> on.\<close>

fun mult_rows ::
  "('m, 'v) linear_algebra \<Rightarrow> 'm option list list \<Rightarrow> nat \<Rightarrow> 'v list \<Rightarrow> 'v list \<Rightarrow> 'v
     \<Rightarrow> error + 'v list" where
  "mult_rows L [] row x y z_tmp = Inr y"
| "mult_rows L (blocks # rest) row x y z_tmp =
     (case blocks of
        [] \<Rightarrow> Inl OutOfBounds
      | None # _ \<Rightarrow> Inl AssertionError
      | Some a0 # _ \<Rightarrow>
          if row < length y then
            (let y_row = la_zero L (la_resize L (y ! row) (la_size L a0 0));
                 z = la_zero L (la_resize L z_tmp (la_vector_size L y_row))
             in case mult_columns L blocks 0 x y_row z of
                  Inl e \<Rightarrow> Inl e
                | Inr (y_row', z') \<Rightarrow> mult_rows L rest (Suc row) x (y[row := y_row']) z')
          else Inl OutOfBounds)"

text \<open>\<^verbatim>\<open>BlockMatrix::mult\<close>: the vector \<^verbatim>\<open>y\<close> after the call.\<close>

definition BlockMatrix_mult ::
  "('m, 'v) linear_algebra \<Rightarrow> 'm BlockMatrix \<Rightarrow> 'v list \<Rightarrow> 'v list \<Rightarrow> bool \<Rightarrow> error + 'v list" where
  "BlockMatrix_mult L A x y transposed =
     (if transposed
      then Inl (UnsupportedOperationError ''BlockMatrix::mult: transposed not implemented.'')
      else
        (case matrices A of
           [] \<Rightarrow> Inl OutOfBounds
         | [] # _ \<Rightarrow> Inl OutOfBounds
         | (None # _) # _ \<Rightarrow> Inl AssertionError
         | (Some a00 # _) # _ \<Rightarrow> mult_rows L (matrices A) 0 x y (la_create_vector L a00)))"

section \<open>Derived notions used in the statements\<close>

text \<open>
  The local dof list of a cell, as the spec's \<^verbatim>\<open>tabulate_dofs(cell)\<close> returns it: what
  \<^verbatim>\<open>tabulate_dofs\<close> leaves in the first \<^verbatim>\<open>local_dimension(cell)\<close> places of a buffer of
  \<^verbatim>\<open>max_local_dimension()\<close> places, the buffer that \<^verbatim>\<open>collapse\<close> and \<^verbatim>\<open>dofs\<close> use.
\<close>

definition cell_dofs ::
  "('s, 'c) ufc_dof_map \<Rightarrow> 's list \<Rightarrow> UFCDofMap \<Rightarrow> 'c \<Rightarrow> uint list" where
  "cell_dofs U h this ufc_cell =
     (case tabulate_dofs U h this (replicate (unat (max_local_dimension U h this)) 0) ufc_cell of
        Inl e \<Rightarrow> []
      | Inr buf \<Rightarrow> take (unat (local_dimension U h this ufc_cell)) buf)"

text \<open>
  The contract of the external descriptor that the buffers rely on: for each of the
  given cells it writes exactly \<^verbatim>\<open>local_dimension(cell)\<close> values, and that is at most
  \<^verbatim>\<open>max_local_dimension()\<close>.
\<close>

definition ufc_tabulates :: "('s, 'c) ufc_dof_map \<Rightarrow> 's \<Rightarrow> ufc_mesh \<Rightarrow> 'c list \<Rightarrow> bool" where
  "ufc_tabulates U dofmap um cs =
     (\<forall>c \<in> set cs.
        length (ufc_tabulate_dofs U dofmap um c) = unat (ufc_local_dimension U dofmap c) \<and>
        ufc_local_dimension U dofmap c \<le> ufc_max_local_dimension U dofmap)"

text \<open>
  The writes of the cell loop of \<^verbatim>\<open>collapse\<close> in the order in which they happen: for
  each cell in turn, position by position, the collapsed index and the original index.
\<close>

definition collapse_writes ::
  "('s, 'c) ufc_dof_map \<Rightarrow> 's list \<Rightarrow> UFCDofMap \<Rightarrow> UFCDofMap \<Rightarrow> 'c list \<Rightarrow> (uint \<times> uint) list" where
  "collapse_writes U h this collapsed_dof_map cs =
     concat (map (\<lambda>c. zip (cell_dofs U h collapsed_dof_map c) (cell_dofs U h this c)) cs)"

text \<open>
  The global dimension that the sibling loop of the extraction reads for sibling \<open>j\<close>:
  the sibling descriptor is created, initialised against the mesh and asked for its
  global dimension.
\<close>

definition sibling_dimension ::
  "('s, 'c) ufc_dof_map \<Rightarrow> 's \<Rightarrow> ufc_mesh \<Rightarrow> 'c Mesh \<Rightarrow> nat \<Rightarrow> uint" where
  "sibling_dimension U parent um dolfin_mesh j =
     (case init_ufc_dofmap U (ufc_create_sub_dof_map U parent (of_nat j)) um dolfin_mesh of
        Inl e \<Rightarrow> 0
      | Inr sibling \<Rightarrow> ufc_global_dimension U sibling)"

section \<open>Example descriptors, meshes and matrices\<close>

text \<open>
  A family of descriptors on interval meshes: one dof per vertex, one dof per edge, or
  a mixed element of two parts whose second part is numbered after the first. The
  object is the element and the global dimension that \<^verbatim>\<open>init_mesh\<close> stored. A cell is
  given by its vertex indices and its edge indices.
\<close>

datatype element = Vertex | Edge | Mixed element element

type_synonym interval_cell = "uint list \<times> uint list"

definition entity_count :: "ufc_mesh \<Rightarrow> nat \<Rightarrow> uint" where
  "entity_count um d = (if d < length (ufc_num_entities um) then of_nat (ufc_num_entities um ! d) else 0)"

fun element_needs :: "element \<Rightarrow> nat \<Rightarrow> bool" where
  "element_needs Vertex d = (d = 0)"
| "element_needs Edge d = (d = 1)"
| "element_needs (Mixed a b) d = (element_needs a d \<or> element_needs b d)"

fun element_dimension :: "element \<Rightarrow> ufc_mesh \<Rightarrow> uint" where
  "element_dimension Vertex um = entity_count um 0"
| "element_dimension Edge um = entity_count um 1"
| "element_dimension (Mixed a b) um = element_dimension a um + element_dimension b um"

fun element_local :: "element \<Rightarrow> interval_cell \<Rightarrow> uint" where
  "element_local Vertex c = of_nat (length (fst c))"
| "element_local Edge c = of_nat (length (snd c))"
| "element_local (Mixed a b) c = element_local a c + element_local b c"

fun element_max_local :: "element \<Rightarrow> uint" where
  "element_max_local Vertex = 2"
| "element_max_local Edge = 1"
| "element_max_local (Mixed a b) = element_max_local a + element_max_local b"

fun element_dofs :: "element \<Rightarrow> ufc_mesh \<Rightarrow> uint \<Rightarrow> interval_cell \<Rightarrow> uint list" where
  "element_dofs Vertex um start c = map (\<lambda>v. start + v) (fst c)"
| "element_dofs Edge um start c = map (\<lambda>e. start + e) (snd c)"
| "element_dofs (Mixed a b) um start c =
     element_dofs a um start c @ element_dofs b um (start + element_dimension a um) c"

fun element_sub :: "element \<Rightarrow> uint \<Rightarrow> element" where
  "element_sub (Mixed a b) i = (if i = 0 then a else b)"
| "element_sub e i = e"

fun element_num_sub :: "element \<Rightarrow> uint" where
  "element_num_sub (Mixed a b) = 2"
| "element_num_sub e = 0"

definition interval_ufc :: "(element \<times> uint, interval_cell) ufc_dof_map" where
  "interval_ufc =
     \<lparr>ufc_needs_mesh_entities = (\<lambda>s d. element_needs (fst s) d),
      ufc_init_mesh = (\<lambda>s um. ((fst s, element_dimension (fst s) um), False)),
      ufc_init_cell = (\<lambda>s um c. s),
      ufc_init_cell_finalize = (\<lambda>s. s),
      ufc_global_dimension = snd,
      ufc_local_dimension = (\<lambda>s c. element_local (fst s) c),
      ufc_max_local_dimension = (\<lambda>s. element_max_local (fst s)),
      ufc_num_sub_dof_maps = (\<lambda>s. element_num_sub (fst s)),
      ufc_create_sub_dof_map = (\<lambda>s i. (element_sub (fst s) i, 0)),
      ufc_tabulate_dofs = (\<lambda>s um c. element_dofs (fst s) um 0 c)\<rparr>"

text \<open>The interval mesh of three cells and four vertices, with its edges or without.\<close>

definition interval_mesh :: "interval_cell Mesh" where
  "interval_mesh =
     \<lparr>topology_dim = 1, geometry_dim = 1,
      num_entities = (\<lambda>d. if d = 0 then 4 else if d = 1 then 3 else 0),
      ordered = True,
      cells = [([0, 1], [0]), ([1, 2], [1]), ([2, 3], [2])]\<rparr>"

definition mesh_without_edges :: "interval_cell Mesh" where
  "mesh_without_edges = interval_mesh\<lparr>num_entities := (\<lambda>d. if d = 0 then 4 else 0)\<rparr>"

definition unordered_mesh :: "interval_cell Mesh" where
  "unordered_mesh = mesh_without_edges\<lparr>ordered := False\<rparr>"

text \<open>
  A descriptor that records the calls made to it: the object is the list of calls so
  far. \<open>needs_cells\<close> is the answer of its \<^verbatim>\<open>init_mesh\<close>.
\<close>

datatype call = Init_mesh | Init_cell interval_cell | Init_cell_finalize

definition recording_ufc :: "bool \<Rightarrow> (call list, interval_cell) ufc_dof_map" where
  "recording_ufc needs_cells =
     \<lparr>ufc_needs_mesh_entities = (\<lambda>s d. False),
      ufc_init_mesh = (\<lambda>s um. (s @ [Init_mesh], needs_cells)),
      ufc_init_cell = (\<lambda>s um c. s @ [Init_cell c]),
      ufc_init_cell_finalize = (\<lambda>s. s @ [Init_cell_finalize]),
      ufc_global_dimension = (\<lambda>s. 0),
      ufc_local_dimension = (\<lambda>s c. 0),
      ufc_max_local_dimension = (\<lambda>s. 0),
      ufc_num_sub_dof_maps = (\<lambda>s. 0),
      ufc_create_sub_dof_map = (\<lambda>s i. s),
      ufc_tabulate_dofs = (\<lambda>s um c. [])\<rparr>"

text \<open>
  A descriptor with one dof per cell whose numbering depends on the mesh summary it is
  handed: on the summary of an interval mesh the dof of a cell is its first edge index,
  on any other summary there is the one index 0 for every cell.
\<close>

definition summary_ufc :: "(unit, interval_cell) ufc_dof_map" where
  "summary_ufc =
     \<lparr>ufc_needs_mesh_entities = (\<lambda>s d. False),
      ufc_init_mesh = (\<lambda>s um. (s, False)),
      ufc_init_cell = (\<lambda>s um c. s),
      ufc_init_cell_finalize = (\<lambda>s. s),
      ufc_global_dimension = (\<lambda>s. 3),
      ufc_local_dimension = (\<lambda>s c. 1),
      ufc_max_local_dimension = (\<lambda>s. 1),
      ufc_num_sub_dof_maps = (\<lambda>s. 0),
      ufc_create_sub_dof_map = (\<lambda>s i. s),
      ufc_tabulate_dofs = (\<lambda>s um c. if topological_dimension um = 1 then take 1 (snd c) else [0])\<rparr>"

text \<open>
  A mesh of two triangles with a common edge; a cell is given by its vertex and its edge
  indices. A map with that descriptor, as its constructor builds it on the interval
  mesh, and the result of collapsing that map with the triangle mesh.
\<close>

definition triangle_mesh :: "interval_cell Mesh" where
  "triangle_mesh =
     \<lparr>topology_dim = 2, geometry_dim = 2,
      num_entities = (\<lambda>d. if d = 0 then 4 else if d = 1 then 5 else if d = 2 then 2 else 0),
      ordered = True,
      cells = [([0, 1, 2], [0, 1, 2]), ([1, 2, 3], [3, 4, 0])]\<rparr>"

definition summary_map :: UFCDofMap where
  "summary_map = \<lparr>ufc_dofmap = 0, ufc_mesh = UFCMesh_init interval_mesh, ufc_offset = 0\<rparr>"

definition collapsed_on_triangles :: "(error + (unit list \<times> UFCDofMap)) \<times> (uint \<rightharpoonup> uint)" where
  "collapsed_on_triangles = collapse summary_ufc [()] summary_map Map.empty triangle_mesh"

text \<open>A backend of dense integer matrices (lists of rows) and integer vectors.\<close>

definition dense_la :: "(int list list, int list) linear_algebra" where
  "dense_la =
     \<lparr>la_new_Matrix = [],
      la_size = (\<lambda>a d. if d = 0 then length a else (case a of [] \<Rightarrow> 0 | r # _ \<Rightarrow> length r)),
      la_mult = (\<lambda>a x y. map (\<lambda>r. sum_list (map2 (*) r x)) a),
      la_create_vector = (\<lambda>a. []),
      la_resize = (\<lambda>v n. replicate n 0),
      la_zero = (\<lambda>v. map (\<lambda>x. 0) v),
      la_vector_size = length,
      la_add = (\<lambda>y z. map2 (+) y z)\<rparr>"

lemmas interval_simps = interval_ufc_def UFCMesh_init_def interval_mesh_def entity_count_def
  local_dimension_def max_local_dimension_def global_dimension_def

text \<open>
  The equations of the loops are unfolded one iteration at a time, where a proof asks
  for it.
\<close>

declare check_mesh_entities.simps [simp del]
declare add_offset.simps [simp del]
declare add_to_offset.simps [simp del]
declare add_to_map.simps [simp del]
declare insert_dofs.simps [simp del]

section \<open>Per-cell tabulation\<close>

lemma add_offset_Inr:
  "n \<le> length buf \<Longrightarrow>
   add_offset i n off buf =
     Inr (map (\<lambda>j. if i \<le> j \<and> j < n then buf ! j + off else buf ! j) [0..<length buf])"
proof (induction i n off buf rule: add_offset.induct)
  case (1 i local_dim off buf)
  show ?case
  proof (cases "i < local_dim")
    case True
    with 1 have il: "i < length buf" by simp
    have "add_offset i local_dim off buf =
            add_offset (Suc i) local_dim off (buf[i := buf ! i + off])"
      using True il by (simp add: add_offset.simps [of i local_dim off buf])
    also have "\<dots> = Inr (map (\<lambda>j. if Suc i \<le> j \<and> j < local_dim
                 then (buf[i := buf ! i + off]) ! j + off else (buf[i := buf ! i + off]) ! j)
                 [0..<length (buf[i := buf ! i + off])])"
      using 1 True il by simp
    also have "\<dots> = Inr (map (\<lambda>j. if i \<le> j \<and> j < local_dim then buf ! j + off else buf ! j)
                 [0..<length buf])"
      using True il by (auto simp: nth_list_update)
    finally show ?thesis .
  next
    case False
    then have "map (\<lambda>j. if i \<le> j \<and> j < local_dim then buf ! j + off else buf ! j)
                 [0..<length buf] = buf"
      by (intro nth_equalityI) auto
    with False show ?thesis by (simp add: add_offset.simps [of i local_dim off buf])
  qed
qed

lemma add_offset_front:
  assumes "length vals \<le> length buf"
  shows "add_offset 0 (length vals) off (vals @ drop (length vals) buf) =
         Inr (map (\<lambda>v. v + off) vals @ drop (length vals) buf)"
proof -
  let ?b = "vals @ drop (length vals) buf"
  have len: "length ?b = length buf" using assms by simp
  have "add_offset 0 (length vals) off ?b =
        Inr (map (\<lambda>j. if 0 \<le> j \<and> j < length vals then ?b ! j + off else ?b ! j) [0..<length ?b])"
    by (rule add_offset_Inr) (simp add: len assms)
  moreover have "map (\<lambda>j. if 0 \<le> j \<and> j < length vals then ?b ! j + off else ?b ! j) [0..<length ?b]
               = map (\<lambda>v. v + off) vals @ drop (length vals) buf"
    by (rule nth_equalityI) (use assms in \<open>auto simp: nth_append\<close>)
  ultimately show ?thesis by simp
qed

lemma tabulate_dofs_Inr:
  assumes "ufc_dofmap this < length h"
    and "length (ufc_tabulate_dofs U (h ! ufc_dofmap this) (ufc_mesh this) c)
           = unat (local_dimension U h this c)"
    and "unat (local_dimension U h this c) \<le> length buf"
  shows "tabulate_dofs U h this buf c =
         Inr (map (\<lambda>v. v + ufc_offset this)
                (ufc_tabulate_dofs U (h ! ufc_dofmap this) (ufc_mesh this) c)
              @ drop (unat (local_dimension U h this c)) buf)"
proof -
  let ?vals = "ufc_tabulate_dofs U (h ! ufc_dofmap this) (ufc_mesh this) c"
  have le: "length ?vals \<le> length buf" using assms by simp
  show ?thesis
  proof (cases "ufc_offset this > 0")
    case True
    then show ?thesis
      using assms(1) le add_offset_front [OF le, of "ufc_offset this"] assms(2)
      by (simp add: tabulate_dofs_def write_dofs_def)
  next
    case False
    then have "ufc_offset this = 0" by (simp add: word_gt_0)
    then show ?thesis
      using assms(1) le assms(2) by (simp add: tabulate_dofs_def write_dofs_def)
  qed
qed

text \<open>
  Claim C4. For every cell, \<^verbatim>\<open>tabulate_dofs\<close> leaves in the buffer exactly the values of
  the descriptor's own tabulation for that cell with the offset of the map added to each
  of them (the values themselves when the offset is zero), and these are
  \<^verbatim>\<open>local_dimension(cell)\<close> values; the buffer behind them is not touched. The
  descriptor is taken to write \<^verbatim>\<open>local_dimension(cell)\<close> values, and the buffer to have
  room for them.
\<close>

theorem tabulate_dofs_offset:
  assumes "ufc_dofmap this < length h"
    and "length (ufc_tabulate_dofs U (h ! ufc_dofmap this) (ufc_mesh this) c)
           = unat (local_dimension U h this c)"
    and "unat (local_dimension U h this c) \<le> length buf"
  shows "\<exists>buf'. tabulate_dofs U h this buf c = Inr buf' \<and>
           take (unat (local_dimension U h this c)) buf' =
             map (\<lambda>v. v + ufc_offset this)
               (ufc_tabulate_dofs U (h ! ufc_dofmap this) (ufc_mesh this) c) \<and>
           (ufc_offset this = 0 \<longrightarrow>
              take (unat (local_dimension U h this c)) buf' =
                ufc_tabulate_dofs U (h ! ufc_dofmap this) (ufc_mesh this) c) \<and>
           length (take (unat (local_dimension U h this c)) buf') =
             unat (local_dimension U h this c) \<and>
           drop (unat (local_dimension U h this c)) buf' =
             drop (unat (local_dimension U h this c)) buf"
  using tabulate_dofs_Inr [OF assms] assms(2,3) by auto

theorem tabulate_dofs_offset_witness:
  "\<exists>buf'. tabulate_dofs interval_ufc [(Mixed Vertex Edge, 7)]
     \<lparr>ufc_dofmap = 0, ufc_mesh = UFCMesh_init interval_mesh, ufc_offset = 4\<rparr>
     [0, 0, 0, 0] ([1, 2], [1]) = Inr buf' \<and> take 3 buf' = [5, 6, 9] \<and> drop 3 buf' = [0]"
  using tabulate_dofs_offset [of "\<lparr>ufc_dofmap = 0, ufc_mesh = UFCMesh_init interval_mesh, ufc_offset = 4\<rparr>"
      "[(Mixed Vertex Edge, 7)]" interval_ufc "([1, 2], [1])" "[0, 0, 0, 0]"]
  by (auto simp add: interval_simps)

section \<open>Initialisation: the entity check and the cell pass\<close>

lemma from_Suc:
  assumes "\<not> P d"
  shows "(\<forall>k. d \<le> k \<and> k \<le> (D::nat) \<longrightarrow> \<not> P k) \<longleftrightarrow> (\<forall>k. Suc d \<le> k \<and> k \<le> D \<longrightarrow> \<not> P k)"
proof
  assume "\<forall>k. d \<le> k \<and> k \<le> D \<longrightarrow> \<not> P k"
  then show "\<forall>k. Suc d \<le> k \<and> k \<le> D \<longrightarrow> \<not> P k" by simp
next
  assume r: "\<forall>k. Suc d \<le> k \<and> k \<le> D \<longrightarrow> \<not> P k"
  show "\<forall>k. d \<le> k \<and> k \<le> D \<longrightarrow> \<not> P k"
  proof (intro allI impI)
    fix k assume k: "d \<le> k \<and> k \<le> D"
    show "\<not> P k"
    proof (cases "k = d")
      case True
      with assms show ?thesis by simp
    next
      case False
      with k have "Suc d \<le> k" by simp
      with r k show ?thesis by simp
    qed
  qed
qed

lemma check_mesh_entities_None:
  "check_mesh_entities U dofmap mesh d0 = None \<longleftrightarrow>
     (\<forall>d. d0 \<le> d \<and> d \<le> topology_dim mesh \<longrightarrow>
        \<not> (ufc_needs_mesh_entities U dofmap d \<and> num_entities mesh d = 0))"
proof (induction U dofmap mesh d0 rule: check_mesh_entities.induct)
  case (1 U dofmap mesh d)
  define P where "P k \<longleftrightarrow> ufc_needs_mesh_entities U dofmap k \<and> num_entities mesh k = 0" for k
  show ?case
  proof (cases "d \<le> topology_dim mesh")
    case False
    then have "check_mesh_entities U dofmap mesh d = None"
      by (simp add: check_mesh_entities.simps [of U dofmap mesh d])
    moreover have "\<forall>k. d \<le> k \<and> k \<le> topology_dim mesh \<longrightarrow> \<not> P k"
      using False by auto
    ultimately show ?thesis unfolding P_def by blast
  next
    case True
    show ?thesis
    proof (cases "P d")
      case missing: True
      then have "check_mesh_entities U dofmap mesh d \<noteq> None"
        using True by (auto simp: P_def check_mesh_entities.simps [of U dofmap mesh d])
      moreover have "\<not> (\<forall>k. d \<le> k \<and> k \<le> topology_dim mesh \<longrightarrow> \<not> P k)"
        using missing True by blast
      ultimately show ?thesis unfolding P_def by blast
    next
      case present: False
      have "check_mesh_entities U dofmap mesh d = check_mesh_entities U dofmap mesh (Suc d)"
        using True present by (auto simp: P_def check_mesh_entities.simps [of U dofmap mesh d])
      moreover have "check_mesh_entities U dofmap mesh (Suc d) = None \<longleftrightarrow>
              (\<forall>k. Suc d \<le> k \<and> k \<le> topology_dim mesh \<longrightarrow> \<not> P k)"
        unfolding P_def using 1 [OF True] present [unfolded P_def] by blast
      ultimately show ?thesis
        using from_Suc [of P d "topology_dim mesh"] present unfolding P_def by simp
    qed
  qed
qed

lemma check_mesh_entities_Some:
  "check_mesh_entities U dofmap mesh d0 = Some e \<Longrightarrow>
     \<exists>d. e = MissingEntitiesError d \<and> d0 \<le> d \<and> d \<le> topology_dim mesh \<and>
         ufc_needs_mesh_entities U dofmap d \<and> num_entities mesh d = 0 \<and>
         (\<forall>k. d0 \<le> k \<and> k < d \<longrightarrow>
            \<not> (ufc_needs_mesh_entities U dofmap k \<and> num_entities mesh k = 0))"
proof (induction U dofmap mesh d0 rule: check_mesh_entities.induct)
  case (1 U dofmap mesh d)
  define P where "P k \<longleftrightarrow> ufc_needs_mesh_entities U dofmap k \<and> num_entities mesh k = 0" for k
  show ?case
  proof (cases "d \<le> topology_dim mesh")
    case False
    with 1(2) show ?thesis by (simp add: check_mesh_entities.simps [of U dofmap mesh d])
  next
    case True
    show ?thesis
    proof (cases "P d")
      case missing: True
      with 1(2) True have "e = MissingEntitiesError d"
        by (auto simp: P_def check_mesh_entities.simps [of U dofmap mesh d])
      with missing True show ?thesis unfolding P_def by (intro exI [of _ d]) auto
    next
      case present: False
      with 1(2) True have "check_mesh_entities U dofmap mesh (Suc d) = Some e"
        by (auto simp: P_def check_mesh_entities.simps [of U dofmap mesh d])
      from 1(1) [OF True present [unfolded P_def] this] obtain k where k:
        "e = MissingEntitiesError k" "Suc d \<le> k" "k \<le> topology_dim mesh" "P k"
        "\<forall>j. Suc d \<le> j \<and> j < k \<longrightarrow> \<not> P j"
        unfolding P_def by blast
      have "\<not> P j" if "d \<le> j \<and> j < k" for j
      proof (cases "j = d")
        case True
        with present show ?thesis by simp
      next
        case False
        with that have "Suc d \<le> j \<and> j < k" by simp
        with k(5) show ?thesis by blast
      qed
      with k show ?thesis unfolding P_def by (intro exI [of _ k]) auto
    qed
  qed
qed

lemma init_cells_foldl:
  "init_cells U dofmap um cs = foldl (\<lambda>s c. ufc_init_cell U s um c) dofmap cs"
  by (induction cs arbitrary: dofmap) simp_all

lemma init_ufc_dofmap_Inl:
  "init_ufc_dofmap U dofmap um mesh = Inl e \<Longrightarrow>
     \<exists>d. e = MissingEntitiesError d \<and> d \<le> topology_dim mesh \<and>
         ufc_needs_mesh_entities U dofmap d \<and> num_entities mesh d = 0 \<and>
         (\<forall>k < d. \<not> (ufc_needs_mesh_entities U dofmap k \<and> num_entities mesh k = 0))"
  using check_mesh_entities_Some [of U dofmap mesh 0 e]
  by (auto simp: init_ufc_dofmap_def split: option.splits prod.splits if_splits)

lemma init_ufc_dofmap_missing:
  assumes "d \<le> topology_dim mesh" "ufc_needs_mesh_entities U dofmap d" "num_entities mesh d = 0"
  shows "\<exists>e. init_ufc_dofmap U dofmap um mesh = Inl e"
proof -
  have "check_mesh_entities U dofmap mesh 0 \<noteq> None"
    using assms by (auto simp: check_mesh_entities_None)
  then show ?thesis by (auto simp: init_ufc_dofmap_def)
qed

text \<open>
  Claim C6, as amended. When some dimension up to the topological dimension is required
  by the descriptor and has no entities in the mesh, \<^verbatim>\<open>init_ufc_dofmap\<close> fails with the
  error that names the lowest such dimension, and whose message tells the caller to call
  \<^verbatim>\<open>mesh.init\<close> for it. \<^verbatim>\<open>init\<close> fails with that error on an ordered mesh; on a mesh
  that is not ordered it fails with the ordering error, which is raised first.
\<close>

theorem init_missing_entities:
  assumes "ufc_dofmap this < length h"
    and "d \<le> topology_dim mesh"
    and "ufc_needs_mesh_entities U (h ! ufc_dofmap this) d"
    and "num_entities mesh d = 0"
  shows "\<exists>d0 \<le> d.
           ufc_needs_mesh_entities U (h ! ufc_dofmap this) d0 \<and> num_entities mesh d0 = 0 \<and>
           (\<forall>k < d0. \<not> (ufc_needs_mesh_entities U (h ! ufc_dofmap this) k \<and> num_entities mesh k = 0)) \<and>
           init_ufc_dofmap U (h ! ufc_dofmap this) um mesh = Inl (MissingEntitiesError d0) \<and>
           init U h this mesh =
             (if ordered mesh then Inl (MissingEntitiesError d0) else Inl OrderingError) \<and>
           error_message (MissingEntitiesError d0) =
             (''Unable to create function space, missing entities of dimension %d. Try calling mesh.init(%d).'',
              [d0, d0])"
proof -
  let ?dm = "h ! ufc_dofmap this"
  obtain e where e: "init_ufc_dofmap U ?dm um mesh = Inl e"
    using init_ufc_dofmap_missing [OF assms(2-4)] by blast
  from init_ufc_dofmap_Inl [OF this] obtain d0 where d0:
    "e = MissingEntitiesError d0" "ufc_needs_mesh_entities U ?dm d0" "num_entities mesh d0 = 0"
    "\<forall>k < d0. \<not> (ufc_needs_mesh_entities U ?dm k \<and> num_entities mesh k = 0)"
    by blast
  have le: "d0 \<le> d"
    using d0(4) assms(3,4) by (meson not_le_imp_less)
  have same: "init_ufc_dofmap U ?dm um' mesh = Inl (MissingEntitiesError d0)" for um'
    using e d0(1) by (auto simp: init_ufc_dofmap_def split: option.splits prod.splits if_splits)
  have "init U h this mesh =
          (if ordered mesh then Inl (MissingEntitiesError d0) else Inl OrderingError)"
    using assms(1) same by (simp add: init_def init_ufc_mesh_def)
  with d0 le same show ?thesis by (intro exI [of _ d0]) simp
qed

text \<open>
  Claim C7. When \<^verbatim>\<open>init\<close> succeeds, the descriptor behind the pointer of the map is the
  one that \<^verbatim>\<open>init_mesh\<close> returned, to which, exactly when \<^verbatim>\<open>init_mesh\<close> answered that
  cells are needed, \<^verbatim>\<open>init_cell\<close> was applied once for each cell in the order of the
  mesh and then \<^verbatim>\<open>init_cell_finalize\<close>; when the answer is no, nothing is applied.
\<close>

theorem init_cell_pass:
  assumes "init U h this mesh = Inr (h', this')"
  shows "h' = h[ufc_dofmap this :=
              (case ufc_init_mesh U (h ! ufc_dofmap this) (UFCMesh_init mesh) of
                 (dofmap1, needs_cells) \<Rightarrow>
                   if needs_cells
                   then ufc_init_cell_finalize U
                          (foldl (\<lambda>s c. ufc_init_cell U s (UFCMesh_init mesh) c) dofmap1 (cells mesh))
                   else dofmap1)] \<and>
         this' = this\<lparr>ufc_mesh := UFCMesh_init mesh\<rparr>"
  using assms
  by (auto simp: init_def init_ufc_mesh_def init_ufc_dofmap_def init_cells_foldl
           split: if_splits sum.splits option.splits prod.splits)

text \<open>
  The claim as written fails on a mesh that is not ordered: the edge element requires
  dimension 1, the mesh has no edges, and \<^verbatim>\<open>init\<close> fails with the ordering error.
\<close>

theorem init_missing_entities_counterexample:
  "ufc_needs_mesh_entities interval_ufc ([(Edge, 0)] ! 0) 1 \<and>
   num_entities unordered_mesh 1 = 0 \<and>
   init interval_ufc [(Edge, 0)] \<lparr>ufc_dofmap = 0, ufc_mesh = empty_ufc_mesh, ufc_offset = 0\<rparr>
     unordered_mesh = Inl OrderingError"
  by (simp add: interval_ufc_def unordered_mesh_def mesh_without_edges_def interval_mesh_def
        init_def init_ufc_mesh_def)

theorem init_missing_entities_witness:
  "init interval_ufc [(Edge, 0)] \<lparr>ufc_dofmap = 0, ufc_mesh = empty_ufc_mesh, ufc_offset = 0\<rparr>
     mesh_without_edges = Inl (MissingEntitiesError 1)"
  using init_missing_entities [of "\<lparr>ufc_dofmap = 0, ufc_mesh = empty_ufc_mesh, ufc_offset = 0\<rparr>"
      "[(Edge, 0)]" 1 mesh_without_edges interval_ufc empty_ufc_mesh]
  by (auto simp: interval_ufc_def mesh_without_edges_def interval_mesh_def)

theorem init_cell_pass_witness:
  "init (recording_ufc True) [[]] \<lparr>ufc_dofmap = 0, ufc_mesh = empty_ufc_mesh, ufc_offset = 0\<rparr>
     interval_mesh =
     Inr ([[Init_mesh, Init_cell ([0, 1], [0]), Init_cell ([1, 2], [1]), Init_cell ([2, 3], [2]),
            Init_cell_finalize]],
          \<lparr>ufc_dofmap = 0, ufc_mesh = UFCMesh_init interval_mesh, ufc_offset = 0\<rparr>) \<and>
   init (recording_ufc False) [[]] \<lparr>ufc_dofmap = 0, ufc_mesh = empty_ufc_mesh, ufc_offset = 0\<rparr>
     interval_mesh =
     Inr ([[Init_mesh]],
          \<lparr>ufc_dofmap = 0, ufc_mesh = UFCMesh_init interval_mesh, ufc_offset = 0\<rparr>)"
proof -
  let ?m = "\<lparr>ufc_dofmap = 0, ufc_mesh = empty_ufc_mesh, ufc_offset = 0\<rparr>"
  have ok: "\<exists>h' this'. init (recording_ufc b) [[]] ?m interval_mesh = Inr (h', this')" for b
    by (simp add: init_def init_ufc_mesh_def init_ufc_dofmap_def recording_ufc_def
          interval_mesh_def check_mesh_entities.simps split: prod.splits)
  from ok [of True] obtain h1 t1 where
    1: "init (recording_ufc True) [[]] ?m interval_mesh = Inr (h1, t1)" by blast
  from ok [of False] obtain h2 t2 where
    2: "init (recording_ufc False) [[]] ?m interval_mesh = Inr (h2, t2)" by blast
  show ?thesis
    using init_cell_pass [OF 1] init_cell_pass [OF 2] 1 2
    by (simp add: recording_ufc_def interval_mesh_def)
qed

section \<open>Sub-dofmap extraction: the checks of each level\<close>

lemma add_to_offset_Inl:
  "add_to_offset U parent i n offset um mesh = Inl e \<Longrightarrow> \<exists>d. e = MissingEntitiesError d"
proof (induction U parent i n offset um mesh rule: add_to_offset.induct)
  case (1 U parent i n offset um mesh)
  show ?case
  proof (cases "i < n")
    case False
    with 1(2) show ?thesis by (simp add: add_to_offset.simps [of U parent i n offset um mesh])
  next
    case True
    show ?thesis
    proof (cases "init_ufc_dofmap U (ufc_create_sub_dof_map U parent (of_nat i)) um mesh")
      case (Inl e')
      with 1(2) True have "e = e'"
        by (simp add: add_to_offset.simps [of U parent i n offset um mesh])
      with init_ufc_dofmap_Inl [OF Inl] show ?thesis by auto
    next
      case (Inr sibling)
      with 1(2) True have
        "add_to_offset U parent (Suc i) n (offset + ufc_global_dimension U sibling) um mesh = Inl e"
        by (simp add: add_to_offset.simps [of U parent i n offset um mesh])
      from 1(1) [OF True Inr this] show ?thesis .
    qed
  qed
qed

text \<open>
  Claim C5. At every level of the extraction, that is for every call of the recursive
  \<^verbatim>\<open>extract_sub_dofmap\<close>: a descriptor without sub-spaces gives the error
  \<open>NoSubspacesError\<close>; with sub-spaces, a requested index that is not less than their
  number gives \<open>IndexOutOfRangeError\<close> with the index and the number, which its message
  prints; otherwise the level raises neither error: it runs the sibling loop, which can
  fail only for missing mesh entities, and then returns the sub-descriptor or goes on to
  the next level.
\<close>

theorem extract_sub_dofmap_checks:
  "(ufc_num_sub_dof_maps U parent = 0 \<longrightarrow>
      extract_sub_dofmap_static U parent offset component um mesh = Inl NoSubspacesError) \<and>
   (ufc_num_sub_dof_maps U parent \<noteq> 0 \<and> ufc_num_sub_dof_maps U parent \<le> c0 \<longrightarrow>
      extract_sub_dofmap_static U parent offset (c0 # rest) um mesh =
        Inl (IndexOutOfRangeError c0 (ufc_num_sub_dof_maps U parent)) \<and>
      error_message (IndexOutOfRangeError c0 (ufc_num_sub_dof_maps U parent)) =
        (''Unable to extract sub system %d (only %d sub systems defined).'',
         [unat c0, unat (ufc_num_sub_dof_maps U parent)])) \<and>
   (ufc_num_sub_dof_maps U parent \<noteq> 0 \<and> c0 < ufc_num_sub_dof_maps U parent \<longrightarrow>
      extract_sub_dofmap_static U parent offset (c0 # rest) um mesh =
        (case add_to_offset U parent 0 (unat c0) offset um mesh of
           Inl e \<Rightarrow> Inl e
         | Inr offset' \<Rightarrow>
             if rest = [] then Inr (ufc_create_sub_dof_map U parent c0, offset')
             else extract_sub_dofmap_static U (ufc_create_sub_dof_map U parent c0) offset' rest
                    um mesh) \<and>
      add_to_offset U parent 0 (unat c0) offset um mesh \<noteq> Inl NoSubspacesError \<and>
      (\<forall>c n. add_to_offset U parent 0 (unat c0) offset um mesh \<noteq> Inl (IndexOutOfRangeError c n)))"
proof (intro conjI impI allI)
  assume "ufc_num_sub_dof_maps U parent = 0"
  then show "extract_sub_dofmap_static U parent offset component um mesh = Inl NoSubspacesError"
    by (cases component) simp_all
next
  assume "ufc_num_sub_dof_maps U parent \<noteq> 0 \<and> ufc_num_sub_dof_maps U parent \<le> c0"
  then show "extract_sub_dofmap_static U parent offset (c0 # rest) um mesh =
        Inl (IndexOutOfRangeError c0 (ufc_num_sub_dof_maps U parent))"
    by simp
next
  show "error_message (IndexOutOfRangeError c0 (ufc_num_sub_dof_maps U parent)) =
        (''Unable to extract sub system %d (only %d sub systems defined).'',
         [unat c0, unat (ufc_num_sub_dof_maps U parent)])"
    by simp
next
  assume "ufc_num_sub_dof_maps U parent \<noteq> 0 \<and> c0 < ufc_num_sub_dof_maps U parent"
  then show "extract_sub_dofmap_static U parent offset (c0 # rest) um mesh =
        (case add_to_offset U parent 0 (unat c0) offset um mesh of
           Inl e \<Rightarrow> Inl e
         | Inr offset' \<Rightarrow>
             if rest = [] then Inr (ufc_create_sub_dof_map U parent c0, offset')
             else extract_sub_dofmap_static U (ufc_create_sub_dof_map U parent c0) offset' rest
                    um mesh)"
    by (simp add: not_le [symmetric])
next
  show "add_to_offset U parent 0 (unat c0) offset um mesh \<noteq> Inl NoSubspacesError"
    using add_to_offset_Inl [of U parent 0 "unat c0" offset um mesh NoSubspacesError] by auto
next
  fix c n
  show "add_to_offset U parent 0 (unat c0) offset um mesh \<noteq> Inl (IndexOutOfRangeError c n)"
    using add_to_offset_Inl [of U parent 0 "unat c0" offset um mesh "IndexOutOfRangeError c n"]
    by auto
qed




theorem extract_sub_dofmap_checks_witness:
  "extract_sub_dofmap_static interval_ufc (Vertex, 0) 0 [0] (UFCMesh_init interval_mesh) interval_mesh
     = Inl NoSubspacesError \<and>
   extract_sub_dofmap_static interval_ufc (Mixed Vertex Edge, 0) 0 [2] (UFCMesh_init interval_mesh)
     interval_mesh = Inl (IndexOutOfRangeError 2 2) \<and>
   extract_sub_dofmap_static interval_ufc (Mixed Vertex Edge, 0) 0 [1] (UFCMesh_init interval_mesh)
     interval_mesh = Inr ((Edge, 0), 4)"
proof -
  let ?um = "UFCMesh_init interval_mesh"
  have n0: "ufc_num_sub_dof_maps interval_ufc (Vertex, 0) = 0"
    by (simp add: interval_ufc_def)
  have n2: "ufc_num_sub_dof_maps interval_ufc (Mixed Vertex Edge, 0) = 2"
    by (simp add: interval_ufc_def)
  have high: "ufc_num_sub_dof_maps interval_ufc (Mixed Vertex Edge, 0) \<noteq> 0 \<and>
              ufc_num_sub_dof_maps interval_ufc (Mixed Vertex Edge, 0) \<le> 2"
    by (simp add: n2)
  have low: "ufc_num_sub_dof_maps interval_ufc (Mixed Vertex Edge, 0) \<noteq> 0 \<and>
             1 < ufc_num_sub_dof_maps interval_ufc (Mixed Vertex Edge, 0)"
    by (simp add: n2)
  have off: "add_to_offset interval_ufc (Mixed Vertex Edge, 0) 0 (unat (1::uint)) 0 ?um
               interval_mesh = Inr 4"
    by code_simp
  have sub: "ufc_create_sub_dof_map interval_ufc (Mixed Vertex Edge, 0) 1 = (Edge, 0)"
    by (simp add: interval_ufc_def)
  have "extract_sub_dofmap_static interval_ufc (Vertex, 0) 0 [0] ?um interval_mesh
          = Inl NoSubspacesError"
    using extract_sub_dofmap_checks [of interval_ufc "(Vertex, 0)" 0 "[0]" ?um interval_mesh] n0
    by blast
  moreover have "extract_sub_dofmap_static interval_ufc (Mixed Vertex Edge, 0) 0 [2] ?um interval_mesh
          = Inl (IndexOutOfRangeError 2 (ufc_num_sub_dof_maps interval_ufc (Mixed Vertex Edge, 0)))"
    using extract_sub_dofmap_checks [of interval_ufc "(Mixed Vertex Edge, 0)" 0 _ ?um
        interval_mesh 2 "[]"] high
    by blast
  moreover have "extract_sub_dofmap_static interval_ufc (Mixed Vertex Edge, 0) 0 [1] ?um interval_mesh
          = (case add_to_offset interval_ufc (Mixed Vertex Edge, 0) 0 (unat (1::uint)) 0 ?um
                    interval_mesh of
               Inl e \<Rightarrow> Inl e
             | Inr offset' \<Rightarrow>
                 if [] = ([]::uint list)
                 then Inr (ufc_create_sub_dof_map interval_ufc (Mixed Vertex Edge, 0) 1, offset')
                 else extract_sub_dofmap_static interval_ufc
                        (ufc_create_sub_dof_map interval_ufc (Mixed Vertex Edge, 0) 1) offset' []
                        ?um interval_mesh)"
    using extract_sub_dofmap_checks [of interval_ufc "(Mixed Vertex Edge, 0)" 0 _ ?um
        interval_mesh 1 "[]"] low
    by blast
  ultimately show ?thesis
    by (simp only: n2 off sub sum.case if_True simp_thms)
qed

section \<open>Block matrices\<close>

text \<open>
  The claim as written fails for a block matrix without rows: \<^verbatim>\<open>size(1)\<close> reads
  \<^verbatim>\<open>matrices[0]\<close>, which does not exist, so the three block columns the matrix was
  constructed with are not returned.
\<close>

theorem BlockMatrix_size_counterexample:
  "BlockMatrix_size (new_BlockMatrix dense_la 0 3) 1 = Inl OutOfBounds \<and>
   BlockMatrix_size (new_BlockMatrix dense_la 0 3) 1 \<noteq> Inr 3"
  by (simp add: BlockMatrix_size_def new_BlockMatrix_def)

text \<open>
  Claim C9, as amended. \<^verbatim>\<open>size(0)\<close> is the number of block rows; for a block matrix
  with at least one block row, \<^verbatim>\<open>size(1)\<close> is the number of block columns (the length
  of the first row); for any other dimension \<^verbatim>\<open>size\<close> fails with the unsupported
  operation error. \<^verbatim>\<open>mult\<close> with the transposed flag fails with the unsupported
  operation error whatever the matrix and the vectors are, and does nothing else.
\<close>

theorem BlockMatrix_unsupported:
  "BlockMatrix_size (new_BlockMatrix L m n) 0 = Inr m \<and>
   (0 < m \<longrightarrow> BlockMatrix_size (new_BlockMatrix L m n) 1 = Inr n) \<and>
   BlockMatrix_size A 0 = Inr (length (matrices A)) \<and>
   (matrices A = row0 # rows \<longrightarrow> BlockMatrix_size A 1 = Inr (length row0)) \<and>
   (dim \<noteq> 0 \<and> dim \<noteq> 1 \<longrightarrow>
      BlockMatrix_size A dim = Inl (UnsupportedOperationError ''BlockMatrix has rank 2!'')) \<and>
   BlockMatrix_mult L A x y True =
     Inl (UnsupportedOperationError ''BlockMatrix::mult: transposed not implemented.'')"
  by (cases m) (simp_all add: BlockMatrix_size_def new_BlockMatrix_def BlockMatrix_mult_def)

theorem BlockMatrix_unsupported_witness:
  "BlockMatrix_size (new_BlockMatrix dense_la 2 3) 0 = Inr 2 \<and>
   BlockMatrix_size (new_BlockMatrix dense_la 2 3) 1 = Inr 3 \<and>
   BlockMatrix_size (new_BlockMatrix dense_la 2 3) 2 =
     Inl (UnsupportedOperationError ''BlockMatrix has rank 2!'') \<and>
   BlockMatrix_mult dense_la (new_BlockMatrix dense_la 2 3) [[], [], []] [[], []] True =
     Inl (UnsupportedOperationError ''BlockMatrix::mult: transposed not implemented.'')"
  using BlockMatrix_unsupported [of dense_la 2 3 "new_BlockMatrix dense_la 2 3"
      "replicate 3 (Some [])" "[replicate 3 (Some [])]" 2 "[[], [], []]" "[[], []]"]
  by (simp add: new_BlockMatrix_def dense_la_def numeral_2_eq_2)

section \<open>Sub-dofmap extraction: the offset\<close>

lemma add_to_offset_Inr:
  "add_to_offset U parent i n offset um mesh = Inr offset' \<Longrightarrow>
     offset' = offset + sum_list (map (sibling_dimension U parent um mesh) [i..<n]) \<and>
     (\<forall>j. i \<le> j \<and> j < n \<longrightarrow>
        (\<exists>sibling. init_ufc_dofmap U (ufc_create_sub_dof_map U parent (of_nat j)) um mesh
           = Inr sibling))"
proof (induction U parent i n offset um mesh rule: add_to_offset.induct)
  case (1 U parent i n offset um mesh)
  show ?case
  proof (cases "i < n")
    case False
    with 1(2) show ?thesis by (auto simp: add_to_offset.simps [of U parent i n offset um mesh])
  next
    case True
    show ?thesis
    proof (cases "init_ufc_dofmap U (ufc_create_sub_dof_map U parent (of_nat i)) um mesh")
      case (Inl e)
      with 1(2) True show ?thesis
        by (simp add: add_to_offset.simps [of U parent i n offset um mesh])
    next
      case (Inr sibling)
      with 1(2) True have step:
        "add_to_offset U parent (Suc i) n (offset + ufc_global_dimension U sibling) um mesh
           = Inr offset'"
        by (simp add: add_to_offset.simps [of U parent i n offset um mesh])
      note IH = 1(1) [OF True Inr step]
      have dim: "sibling_dimension U parent um mesh i = ufc_global_dimension U sibling"
        using Inr by (simp add: sibling_dimension_def)
      have "offset' = offset + sum_list (map (sibling_dimension U parent um mesh) [i..<n])"
        using IH True dim by (simp add: upt_conv_Cons add.assoc)
      moreover have "\<exists>s. init_ufc_dofmap U (ufc_create_sub_dof_map U parent (of_nat j)) um mesh
                          = Inr s" if "i \<le> j \<and> j < n" for j
      proof (cases "j = i")
        case True
        with Inr show ?thesis by simp
      next
        case False
        with that have "Suc i \<le> j \<and> j < n" by simp
        with IH show ?thesis by blast
      qed
      ultimately show ?thesis by blast
    qed
  qed
qed

lemma unat_sum_list:
  "unat (sum_list (ws :: uint list)) = sum_list (map unat ws) mod 2 ^ 32"
proof (induction ws)
  case Nil
  then show ?case by simp
next
  case (Cons w ws)
  have "unat (w + sum_list ws) = (unat w + unat (sum_list ws)) mod 2 ^ 32"
    by (simp add: unat_word_ariths)
  also have "\<dots> = (unat w + sum_list (map unat ws) mod 2 ^ 32) mod 2 ^ 32"
    by (simp add: Cons.IH)
  also have "\<dots> = (unat w + sum_list (map unat ws)) mod 2 ^ 32"
    by (simp add: mod_add_right_eq)
  finally show ?case by simp
qed

lemma new_UFCDofMap_offset:
  "new_UFCDofMap U h ptr mesh = Inr (h', m) \<Longrightarrow>
     ufc_offset m = 0 \<and> ufc_dofmap m = ptr \<and> ufc_mesh m = UFCMesh_init mesh \<and> ordered mesh \<and>
     ptr < length h \<and>
     init_ufc_dofmap U (h ! ptr) (UFCMesh_init mesh) mesh = Inr (h' ! ptr) \<and>
     h' = h[ptr := h' ! ptr]"
  by (auto simp: new_UFCDofMap_def init_def init_ufc_mesh_def split: if_splits sum.splits)

text \<open>
  Claim C3. When sub-space \<open>i\<close> of a map is extracted, the offset of the new map is the
  sum of the global dimensions of the siblings \<open>0\<close>, ..., \<open>i - 1\<close>, taken in ascending
  order: each of these sibling descriptors was created from the parent descriptor and
  initialised against the mesh, successfully, and asked for its global dimension. The
  sum is the sum of \<^verbatim>\<open>unsigned int\<close>; it is the sum of the numbers when that is below
  \<open>2^32\<close>. The descriptor of the new map is sub-descriptor \<open>i\<close>, initialised.
\<close>

theorem extract_sub_dofmap_offset:
  assumes "extract_sub_dofmap U h this [i] mesh = Inr (h', sub)"
  shows "ufc_offset sub =
           sum_list (map (sibling_dimension U (h ! ufc_dofmap this) (ufc_mesh this) mesh)
                       [0..<unat i]) \<and>
         (\<forall>j < unat i. \<exists>sibling.
            init_ufc_dofmap U (ufc_create_sub_dof_map U (h ! ufc_dofmap this) (of_nat j))
              (ufc_mesh this) mesh = Inr sibling \<and>
            sibling_dimension U (h ! ufc_dofmap this) (ufc_mesh this) mesh j =
              ufc_global_dimension U sibling) \<and>
         (sum_list (map (\<lambda>j. unat (sibling_dimension U (h ! ufc_dofmap this) (ufc_mesh this) mesh j))
                      [0..<unat i]) < 2 ^ 32 \<longrightarrow>
          unat (ufc_offset sub) =
            sum_list (map (\<lambda>j. unat (sibling_dimension U (h ! ufc_dofmap this) (ufc_mesh this) mesh j))
                        [0..<unat i])) \<and>
         init_ufc_dofmap U (ufc_create_sub_dof_map U (h ! ufc_dofmap this) i)
           (UFCMesh_init mesh) mesh = Inr (h' ! ufc_dofmap sub)"
proof -
  let ?p = "h ! ufc_dofmap this"
  let ?um = "ufc_mesh this"
  let ?dim = "sibling_dimension U ?p ?um mesh"
  from assms obtain s off where
    st: "extract_sub_dofmap_static U ?p 0 [i] ?um mesh = Inr (s, off)"
    by (auto simp: extract_sub_dofmap_def split: if_splits sum.splits)
  from assms st obtain m where
    new: "new_UFCDofMap U (h @ [s]) (length h) mesh = Inr (h', m)"
    and sub: "sub = m\<lparr>ufc_offset := off\<rparr>"
    by (auto simp: extract_sub_dofmap_def split: if_splits sum.splits)
  from st have s: "s = ufc_create_sub_dof_map U ?p i"
    and loop: "add_to_offset U ?p 0 (unat i) 0 ?um mesh = Inr off"
    by (auto split: if_splits sum.splits)
  note r = add_to_offset_Inr [OF loop]
  have off: "off = sum_list (map ?dim [0..<unat i])"
    using r by simp
  have sib: "\<exists>sibling. init_ufc_dofmap U (ufc_create_sub_dof_map U ?p (of_nat j)) ?um mesh
                = Inr sibling \<and> ?dim j = ufc_global_dimension U sibling" if "j < unat i" for j
  proof -
    from r that obtain sibling where
      "init_ufc_dofmap U (ufc_create_sub_dof_map U ?p (of_nat j)) ?um mesh = Inr sibling"
      by auto
    then show ?thesis by (auto simp: sibling_dimension_def)
  qed
  have nat: "unat off = sum_list (map (\<lambda>j. unat (?dim j)) [0..<unat i])"
    if "sum_list (map (\<lambda>j. unat (?dim j)) [0..<unat i]) < 2 ^ 32"
    using that unat_sum_list [of "map ?dim [0..<unat i]"] by (simp add: off comp_def)
  have desc: "init_ufc_dofmap U (ufc_create_sub_dof_map U ?p i) (UFCMesh_init mesh) mesh
                = Inr (h' ! ufc_dofmap sub)"
    using new_UFCDofMap_offset [OF new] s sub by simp
  from off sib nat desc sub show ?thesis by simp
qed

theorem extract_sub_dofmap_offset_witness:
  "\<exists>h' sub.
     extract_sub_dofmap interval_ufc [(Mixed Vertex (Mixed Edge Vertex), 11)]
       \<lparr>ufc_dofmap = 0, ufc_mesh = UFCMesh_init interval_mesh, ufc_offset = 0\<rparr> [1] interval_mesh
       = Inr (h', sub) \<and>
     ufc_offset sub = 4 \<and> h' ! ufc_dofmap sub = (Mixed Edge Vertex, 7)"
proof -
  let ?h = "[(Mixed Vertex (Mixed Edge Vertex), 11 :: uint)]"
  let ?m = "\<lparr>ufc_dofmap = 0, ufc_mesh = UFCMesh_init interval_mesh, ufc_offset = 0\<rparr>"
  have run: "extract_sub_dofmap interval_ufc ?h ?m [1] interval_mesh =
          Inr ([(Mixed Vertex (Mixed Edge Vertex), 11), (Mixed Edge Vertex, 7)],
               \<lparr>ufc_dofmap = 1, ufc_mesh = UFCMesh_init interval_mesh, ufc_offset = 4\<rparr>)"
    by code_simp
  have dims: "map (sibling_dimension interval_ufc (?h ! ufc_dofmap ?m) (ufc_mesh ?m) interval_mesh)
                [0..<unat (1::uint)] = [4]"
    by code_simp
  from extract_sub_dofmap_offset [OF run] dims run show ?thesis
    by simp
qed

section \<open>The set of all dofs: sorted, without duplicates\<close>

lemma cell_dofs_eq:
  assumes "ufc_dofmap this < length h"
    and "ufc_tabulates U (h ! ufc_dofmap this) (ufc_mesh this) cs"
    and "c \<in> set cs"
  shows "cell_dofs U h this c =
           map (\<lambda>v. v + ufc_offset this)
             (ufc_tabulate_dofs U (h ! ufc_dofmap this) (ufc_mesh this) c)"
proof -
  let ?vals = "ufc_tabulate_dofs U (h ! ufc_dofmap this) (ufc_mesh this) c"
  let ?buf = "replicate (unat (max_local_dimension U h this)) (0::uint)"
  have len: "length ?vals = unat (local_dimension U h this c)"
    and le: "unat (local_dimension U h this c) \<le> length ?buf"
    using assms(2,3)
    by (auto simp: ufc_tabulates_def local_dimension_def max_local_dimension_def word_le_nat_alt)
  show ?thesis
    using tabulate_dofs_Inr [OF assms(1) len le] len by (simp add: cell_dofs_def)
qed

lemma tabulate_dofs_buffer:
  assumes "ufc_dofmap this < length h"
    and "ufc_tabulates U (h ! ufc_dofmap this) (ufc_mesh this) cs"
    and "c \<in> set cs"
    and "length buf = unat (max_local_dimension U h this)"
  shows "\<exists>buf'. tabulate_dofs U h this buf c = Inr buf' \<and> length buf' = length buf \<and>
           take (unat (local_dimension U h this c)) buf' = cell_dofs U h this c \<and>
           length (cell_dofs U h this c) = unat (local_dimension U h this c)"
proof -
  let ?vals = "ufc_tabulate_dofs U (h ! ufc_dofmap this) (ufc_mesh this) c"
  have len: "length ?vals = unat (local_dimension U h this c)"
    and le: "unat (local_dimension U h this c) \<le> length buf"
    using assms(2,3,4)
    by (auto simp: ufc_tabulates_def local_dimension_def max_local_dimension_def word_le_nat_alt)
  show ?thesis
    using tabulate_dofs_Inr [OF assms(1) len le] len le cell_dofs_eq [OF assms(1-3)]
    by simp
qed

lemma insert_dofs_Inr:
  "n \<le> length buf \<Longrightarrow>
   \<exists>r. insert_dofs i n buf dof_list = Inr r \<and> (distinct dof_list \<longrightarrow> distinct r) \<and>
       set r = set dof_list \<union> set (drop i (take n buf))"
proof (induction i n buf dof_list rule: insert_dofs.induct)
  case (1 i n buf dof_list)
  show ?case
  proof (cases "i < n")
    case False
    then show ?thesis by (simp add: insert_dofs.simps [of i n buf dof_list])
  next
    case True
    with 1(2) have il: "i < length buf" by simp
    from 1(1) [OF True il 1(2)] obtain r where r:
      "insert_dofs (Suc i) n buf (Set_insert (buf ! i) dof_list) = Inr r"
      "distinct (Set_insert (buf ! i) dof_list) \<longrightarrow> distinct r"
      "set r = set (Set_insert (buf ! i) dof_list) \<union> set (drop (Suc i) (take n buf))"
      by blast
    have d: "drop i (take n buf) = buf ! i # drop (Suc i) (take n buf)"
      using True il by (simp add: Cons_nth_drop_Suc [symmetric])
    have "insert_dofs i n buf dof_list = Inr r"
      using True il r(1) by (simp add: insert_dofs.simps [of i n buf dof_list])
    moreover have "distinct dof_list \<longrightarrow> distinct r"
      using r(2) by (simp add: Set_insert_def)
    moreover have "set r = set dof_list \<union> set (drop i (take n buf))"
      using r(3) d by (auto simp: Set_insert_def)
    ultimately show ?thesis by blast
  qed
qed

lemma dofs_cells_Inr:
  assumes "ufc_dofmap this < length h"
    and "ufc_tabulates U (h ! ufc_dofmap this) (ufc_mesh this) all_cells"
  shows "set cs \<subseteq> set all_cells \<Longrightarrow> length buf = unat (max_local_dimension U h this) \<Longrightarrow>
     \<exists>r. dofs_cells U h this cs buf dof_list = Inr r \<and> (distinct dof_list \<longrightarrow> distinct r) \<and>
         set r = set dof_list \<union> (\<Union>c \<in> set cs. set (cell_dofs U h this c))"
proof (induction cs arbitrary: buf dof_list)
  case Nil
  then show ?case by simp
next
  case (Cons c cs)
  from Cons.prems have c: "c \<in> set all_cells" by simp
  from tabulate_dofs_buffer [OF assms c Cons.prems(2)] obtain buf' where b:
    "tabulate_dofs U h this buf c = Inr buf'" "length buf' = length buf"
    "take (unat (local_dimension U h this c)) buf' = cell_dofs U h this c"
    "length (cell_dofs U h this c) = unat (local_dimension U h this c)"
    by blast
  have le: "unat (local_dimension U h this c) \<le> length buf'"
    using b(3,4) by (metis length_take min.cobounded1)
  from insert_dofs_Inr [OF le, of 0 dof_list] obtain l1 where l1:
    "insert_dofs 0 (unat (local_dimension U h this c)) buf' dof_list = Inr l1"
    "distinct dof_list \<longrightarrow> distinct l1"
    "set l1 = set dof_list \<union> set (cell_dofs U h this c)"
    using b(3) by auto
  from Cons.prems have sub: "set cs \<subseteq> set all_cells" by simp
  from Cons.IH [OF sub, of buf' l1] b(2) Cons.prems(2) obtain r where r:
    "dofs_cells U h this cs buf' l1 = Inr r" "distinct l1 \<longrightarrow> distinct r"
    "set r = set l1 \<union> (\<Union>c \<in> set cs. set (cell_dofs U h this c))"
    by auto
  have "dofs_cells U h this (c # cs) buf dof_list = Inr r"
    using b(1) l1(1) r(1) by simp
  moreover have "distinct dof_list \<longrightarrow> distinct r"
    using l1(2) r(2) by blast
  moreover have "set r = set dof_list \<union> (\<Union>c \<in> set (c # cs). set (cell_dofs U h this c))"
    using l1(3) r(3) by auto
  ultimately show ?case by blast
qed

text \<open>
  Claim C8. For every mesh, \<^verbatim>\<open>dofs\<close> with \<^verbatim>\<open>sort\<close> set returns a strictly ascending
  sequence, so one without duplicates; without \<^verbatim>\<open>sort\<close> it returns the same set of
  indices, each once: the indices tabulated for the cells of the mesh. The descriptor is
  taken to keep its contract on the cells of the mesh, so that no access leaves the
  buffer.
\<close>

theorem dofs_sorted_distinct:
  assumes "ufc_dofmap this < length h"
    and "ufc_tabulates U (h ! ufc_dofmap this) (ufc_mesh this) (cells mesh)"
  shows "\<exists>xs ys. dofs U h this mesh True = Inr xs \<and> dofs U h this mesh False = Inr ys \<and>
           sorted_wrt (<) xs \<and> distinct xs \<and> distinct ys \<and> set xs = set ys \<and>
           set ys = (\<Union>c \<in> set (cells mesh). set (cell_dofs U h this c))"
proof -
  from dofs_cells_Inr [OF assms, of "cells mesh"
      "replicate (unat (max_local_dimension U h this)) 0" "[]"]
  obtain r where r:
    "dofs_cells U h this (cells mesh) (replicate (unat (max_local_dimension U h this)) 0) [] = Inr r"
    "distinct r" "set r = (\<Union>c \<in> set (cells mesh). set (cell_dofs U h this c))"
    by auto
  have "dofs U h this mesh True = Inr (sort r)" "dofs U h this mesh False = Inr r"
    using r(1) by (simp_all add: dofs_def Set_sort_def)
  moreover have "sorted_wrt (<) (sort r)"
    using r(2) by (simp add: strict_sorted_iff)
  ultimately show ?thesis using r(2,3) by simp
qed

theorem dofs_sorted_distinct_witness:
  "\<exists>xs ys.
     dofs interval_ufc [(Mixed Vertex Edge, 7)]
       \<lparr>ufc_dofmap = 0, ufc_mesh = UFCMesh_init interval_mesh, ufc_offset = 0\<rparr> interval_mesh True
       = Inr xs \<and>
     dofs interval_ufc [(Mixed Vertex Edge, 7)]
       \<lparr>ufc_dofmap = 0, ufc_mesh = UFCMesh_init interval_mesh, ufc_offset = 0\<rparr> interval_mesh False
       = Inr ys \<and>
     ys = [0, 1, 4, 2, 5, 3, 6] \<and> sorted_wrt (<) xs \<and> distinct xs \<and> set xs = set ys"
proof -
  let ?h = "[(Mixed Vertex Edge, 7 :: uint)]"
  let ?m = "\<lparr>ufc_dofmap = 0, ufc_mesh = UFCMesh_init interval_mesh, ufc_offset = 0\<rparr>"
  have p: "ufc_dofmap ?m < length ?h" by simp
  have t: "ufc_tabulates interval_ufc (?h ! ufc_dofmap ?m) (ufc_mesh ?m) (cells interval_mesh)"
    by code_simp
  have u: "dofs interval_ufc ?h ?m interval_mesh False = Inr [0, 1, 4, 2, 5, 3, 6]"
    by code_simp
  from dofs_sorted_distinct [OF p t] u show ?thesis by auto
qed

section \<open>Collapse: the translation table\<close>

lemma add_to_map_Inr:
  "n \<le> length cd \<Longrightarrow> n \<le> length d \<Longrightarrow>
   add_to_map i n cd d m =
     (None, m ++ map_of (rev (zip (drop i (take n cd)) (drop i (take n d)))))"
proof (induction i n cd d m rule: add_to_map.induct)
  case (1 i n cd d m)
  show ?case
  proof (cases "i < n")
    case False
    then show ?thesis by (simp add: add_to_map.simps [of i n cd d m])
  next
    case True
    with 1(2,3) have il: "i < length cd \<and> i < length d" by simp
    have dc: "drop i (take n cd) = cd ! i # drop (Suc i) (take n cd)"
      and dd: "drop i (take n d) = d ! i # drop (Suc i) (take n d)"
      using True il by (simp_all add: Cons_nth_drop_Suc [symmetric])
    have "add_to_map i n cd d m = add_to_map (Suc i) n cd d (m(cd ! i \<mapsto> d ! i))"
      using True il by (simp add: add_to_map.simps [of i n cd d m])
    also have "\<dots> = (None, m(cd ! i \<mapsto> d ! i) ++
                 map_of (rev (zip (drop (Suc i) (take n cd)) (drop (Suc i) (take n d)))))"
      using 1(1) [OF True il 1(2,3)] .
    also have "m(cd ! i \<mapsto> d ! i) ++
                 map_of (rev (zip (drop (Suc i) (take n cd)) (drop (Suc i) (take n d)))) =
               m ++ map_of (rev (zip (drop i (take n cd)) (drop i (take n d))))"
      by (simp add: dc dd map_add_upd_left [symmetric] del: map_add_upd_left)
    finally show ?thesis .
  qed
qed

lemma collapse_cells_Inr:
  assumes "ufc_dofmap this < length h"
    and "ufc_dofmap cm = ufc_dofmap this"
    and "ufc_tabulates U (h ! ufc_dofmap this) (ufc_mesh this) all_cells"
    and "ufc_tabulates U (h ! ufc_dofmap this) (ufc_mesh cm) all_cells"
  shows "set cs \<subseteq> set all_cells \<Longrightarrow> length buf = unat (max_local_dimension U h this) \<Longrightarrow>
     length cbuf = unat (max_local_dimension U h this) \<Longrightarrow>
     collapse_cells U h this cm cs buf cbuf m =
       (None, m ++ map_of (rev (collapse_writes U h this cm cs)))"
proof (induction cs arbitrary: buf cbuf m)
  case Nil
  then show ?case by (simp add: collapse_writes_def)
next
  case (Cons c cs)
  from Cons.prems have c: "c \<in> set all_cells" and sub: "set cs \<subseteq> set all_cells" by simp_all
  have ld: "local_dimension U h cm c = local_dimension U h this c"
    and mld: "max_local_dimension U h cm = max_local_dimension U h this"
    using assms(2) by (simp_all add: local_dimension_def max_local_dimension_def)
  have pc: "ufc_dofmap cm < length h" using assms(1,2) by simp
  have tc: "ufc_tabulates U (h ! ufc_dofmap cm) (ufc_mesh cm) all_cells"
    using assms(2,4) by simp
  from tabulate_dofs_buffer [OF assms(1,3) c Cons.prems(2)] obtain buf' where b:
    "tabulate_dofs U h this buf c = Inr buf'" "length buf' = length buf"
    "take (unat (local_dimension U h this c)) buf' = cell_dofs U h this c"
    "length (cell_dofs U h this c) = unat (local_dimension U h this c)"
    by blast
  from tabulate_dofs_buffer [OF pc tc c, of cbuf] Cons.prems(3) mld obtain cbuf' where cb:
    "tabulate_dofs U h cm cbuf c = Inr cbuf'" "length cbuf' = length cbuf"
    "take (unat (local_dimension U h this c)) cbuf' = cell_dofs U h cm c"
    "length (cell_dofs U h cm c) = unat (local_dimension U h this c)"
    by (auto simp: ld)
  have le: "unat (local_dimension U h this c) \<le> length buf'"
    using b(3,4) by (metis length_take min.cobounded1)
  have cle: "unat (local_dimension U h this c) \<le> length cbuf'"
    using cb(3,4) by (metis length_take min.cobounded1)
  have "add_to_map 0 (unat (local_dimension U h cm c)) cbuf' buf' m =
          (None, m ++ map_of (rev (zip (cell_dofs U h cm c) (cell_dofs U h this c))))"
    using add_to_map_Inr [OF cle le, of 0 m] b(3) cb(3) by (simp add: ld)
  moreover have "collapse_cells U h this cm cs buf' cbuf'
                   (m ++ map_of (rev (zip (cell_dofs U h cm c) (cell_dofs U h this c)))) =
                 (None, m ++ map_of (rev (zip (cell_dofs U h cm c) (cell_dofs U h this c))) ++
                      map_of (rev (collapse_writes U h this cm cs)))"
    using Cons.IH [OF sub] b(2) cb(2) Cons.prems(2,3) by simp
  ultimately have "collapse_cells U h this cm (c # cs) buf cbuf m =
                 (None, m ++ map_of (rev (zip (cell_dofs U h cm c) (cell_dofs U h this c))) ++
                      map_of (rev (collapse_writes U h this cm cs)))"
    using b(1) cb(1) by simp
  then show ?case by (simp add: collapse_writes_def)
qed

lemma same_numbering_writes:
  assumes "ufc_dofmap this < length h"
    and "ufc_dofmap cm = ufc_dofmap this" "ufc_mesh cm = ufc_mesh this" "ufc_offset cm = 0"
    and "ufc_tabulates U (h ! ufc_dofmap this) (ufc_mesh this) cs"
    and "(a, b) \<in> set (collapse_writes U h this cm cs)"
  shows "b = a + ufc_offset this"
proof -
  from assms(6) obtain c where c: "c \<in> set cs"
    and ab: "(a, b) \<in> set (zip (cell_dofs U h cm c) (cell_dofs U h this c))"
    by (auto simp: collapse_writes_def)
  let ?vals = "ufc_tabulate_dofs U (h ! ufc_dofmap this) (ufc_mesh this) c"
  have 1: "cell_dofs U h this c = map (\<lambda>v. v + ufc_offset this) ?vals"
    using cell_dofs_eq [OF assms(1,5) c] .
  have "cell_dofs U h cm c = map (\<lambda>v. v + ufc_offset cm) ?vals"
    using cell_dofs_eq [of cm h U cs c] assms(1-3,5) c by simp
  then have 2: "cell_dofs U h cm c = ?vals" using assms(4) by simp
  from ab show ?thesis
    unfolding 1 2 by (auto simp: zip_map2 in_set_zip)
qed

text \<open>
  Claim C2, as amended. When \<^verbatim>\<open>collapse\<close> returns, the collapsed map is on the same
  descriptor object, with the summary of the mesh and offset zero, and the table is the
  one that the writes of the cell loop leave when they are made in ascending cell order
  and a later write to an index replaces an earlier one. For a map whose own summary is
  that of the mesh handed to \<^verbatim>\<open>collapse\<close>, the table takes the collapsed index at every
  position of every cell to the index of this map at that position. The descriptor is
  taken to keep its contract on the cells of the mesh.
\<close>

theorem collapse_round_trip:
  assumes "collapse U h this table mesh = (Inr (h', collapsed), translation)"
    and "ufc_tabulates U (h' ! ufc_dofmap this) (ufc_mesh this) (cells mesh)"
    and "ufc_tabulates U (h' ! ufc_dofmap this) (UFCMesh_init mesh) (cells mesh)"
  shows "ufc_offset collapsed = 0 \<and> ufc_dofmap collapsed = ufc_dofmap this \<and>
         ufc_mesh collapsed = UFCMesh_init mesh \<and>
         translation = map_of (rev (collapse_writes U h' this collapsed (cells mesh))) \<and>
         (ufc_mesh this = UFCMesh_init mesh \<longrightarrow>
            (\<forall>c \<in> set (cells mesh). \<forall>k < unat (local_dimension U h' collapsed c).
               translation (cell_dofs U h' collapsed c ! k) = Some (cell_dofs U h' this c ! k)))"
proof -
  from assms(1) have p: "ufc_dofmap this < length h"
    by (auto simp: collapse_def split: if_splits)
  from assms(1) have new: "new_UFCDofMap U h (ufc_dofmap this) mesh = Inr (h', collapsed)"
    and loop: "collapse_cells U h' this collapsed (cells mesh)
                 (replicate (unat (max_local_dimension U h' this)) 0)
                 (replicate (unat (max_local_dimension U h' collapsed)) 0) Map.empty
               = (None, translation)"
    by (auto simp: collapse_def split: if_splits sum.splits prod.splits option.splits)
  note n = new_UFCDofMap_offset [OF new]
  have p': "ufc_dofmap this < length h'"
    using n p by (metis length_list_update)
  have same: "max_local_dimension U h' collapsed = max_local_dimension U h' this"
    using n by (simp add: max_local_dimension_def)
  have tc: "ufc_tabulates U (h' ! ufc_dofmap this) (ufc_mesh collapsed) (cells mesh)"
    using assms(3) n by simp
  have tbl: "translation = map_of (rev (collapse_writes U h' this collapsed (cells mesh)))"
    using collapse_cells_Inr [OF p' _ assms(2) tc, where cs = "cells mesh"
        and buf = "replicate (unat (max_local_dimension U h' this)) 0"
        and cbuf = "replicate (unat (max_local_dimension U h' collapsed)) 0" and m = Map.empty]
      n loop same by simp
  have rt: "translation (cell_dofs U h' collapsed c ! k) = Some (cell_dofs U h' this c ! k)"
    if H: "ufc_mesh this = UFCMesh_init mesh" and c: "c \<in> set (cells mesh)"
      and k: "k < unat (local_dimension U h' collapsed c)" for c k
  proof -
    let ?vals = "ufc_tabulate_dofs U (h' ! ufc_dofmap this) (ufc_mesh this) c"
    have len: "length ?vals = unat (local_dimension U h' collapsed c)"
      using assms(2) c n by (simp add: ufc_tabulates_def local_dimension_def)
    have 1: "cell_dofs U h' this c = map (\<lambda>v. v + ufc_offset this) ?vals"
      using cell_dofs_eq [OF p' assms(2) c] .
    have "cell_dofs U h' collapsed c = map (\<lambda>v. v + ufc_offset collapsed) ?vals"
      using cell_dofs_eq [of collapsed h' U "cells mesh" c] p' assms(2) c n H by simp
    then have 2: "cell_dofs U h' collapsed c = ?vals" using n by simp
    let ?ws = "collapse_writes U h' this collapsed (cells mesh)"
    have "(?vals ! k, ?vals ! k + ufc_offset this) \<in> set ?ws"
      using c k len unfolding collapse_writes_def
      by (auto simp: in_set_zip 1 2 intro!: bexI [of _ c] exI [of _ k])
    then have "?vals ! k \<in> fst ` set (rev ?ws)" by force
    then obtain b where b: "map_of (rev ?ws) (?vals ! k) = Some b"
      by (metis map_of_eq_None_iff not_Some_eq)
    then have "(?vals ! k, b) \<in> set ?ws"
      using map_of_SomeD by fastforce
    then have "b = ?vals ! k + ufc_offset this"
      using same_numbering_writes [OF p' _ _ _ assms(2), of collapsed "?vals ! k" b] n H by simp
    with b show ?thesis
      using k len by (simp add: tbl 1 2)
  qed
  from n tbl rt show ?thesis by simp
qed

text \<open>
  The claim as written fails for a map that was initialised against another mesh than
  the one handed to \<^verbatim>\<open>collapse\<close>. The map below was constructed on the interval mesh
  and is collapsed with the triangle mesh: with its own summary it gives the two
  triangles the indices 0 and 3, the collapsed map gives both the index 0, and the
  second write wins: the table takes the collapsed index 0 of the first triangle to 3,
  not to its original index 0.
\<close>

theorem collapse_round_trip_counterexample:
  "new_UFCDofMap summary_ufc [()] 0 interval_mesh = Inr ([()], summary_map) \<and>
   fst collapsed_on_triangles =
     Inr ([()], \<lparr>ufc_dofmap = 0, ufc_mesh = UFCMesh_init triangle_mesh, ufc_offset = 0\<rparr>) \<and>
   cell_dofs summary_ufc [()]
     \<lparr>ufc_dofmap = 0, ufc_mesh = UFCMesh_init triangle_mesh, ufc_offset = 0\<rparr>
     ([0, 1, 2], [0, 1, 2]) = [0] \<and>
   cell_dofs summary_ufc [()] summary_map ([0, 1, 2], [0, 1, 2]) = [0] \<and>
   snd collapsed_on_triangles 0 = Some 3"
  by code_simp

theorem collapse_round_trip_witness:
  "\<exists>h' collapsed translation.
     collapse interval_ufc [(Vertex, 4)]
       \<lparr>ufc_dofmap = 0, ufc_mesh = UFCMesh_init interval_mesh, ufc_offset = 4\<rparr> Map.empty
       interval_mesh = (Inr (h', collapsed), translation) \<and>
     ufc_offset collapsed = 0 \<and>
     cell_dofs interval_ufc h' collapsed ([1, 2], [1]) ! 1 = 2 \<and>
     cell_dofs interval_ufc h'
       \<lparr>ufc_dofmap = 0, ufc_mesh = UFCMesh_init interval_mesh, ufc_offset = 4\<rparr> ([1, 2], [1]) ! 1 = 6 \<and>
     translation 2 = Some 6"
proof -
  let ?h = "[(Vertex, 4 :: uint)]"
  let ?m = "\<lparr>ufc_dofmap = 0, ufc_mesh = UFCMesh_init interval_mesh, ufc_offset = 4\<rparr>"
  let ?cm = "\<lparr>ufc_dofmap = 0, ufc_mesh = UFCMesh_init interval_mesh, ufc_offset = 0\<rparr>"
  let ?c = "([1, 2], [1]) :: interval_cell"
  let ?r = "collapse interval_ufc ?h ?m Map.empty interval_mesh"
  have "fst ?r = Inr (?h, ?cm)" by code_simp
  then obtain tr where run: "?r = (Inr (?h, ?cm), tr)"
    by (cases ?r) auto
  have t: "ufc_tabulates interval_ufc (?h ! ufc_dofmap ?m) (ufc_mesh ?m) (cells interval_mesh)"
    by code_simp
  have t2: "ufc_tabulates interval_ufc (?h ! ufc_dofmap ?m) (UFCMesh_init interval_mesh)
              (cells interval_mesh)"
    using t by simp
  note main = collapse_round_trip [OF run t t2]
  have c: "?c \<in> set (cells interval_mesh)" by code_simp
  have k: "1 < unat (local_dimension interval_ufc ?h ?cm ?c)" by code_simp
  have rt: "tr (cell_dofs interval_ufc ?h ?cm ?c ! 1) = Some (cell_dofs interval_ufc ?h ?m ?c ! 1)"
    using main c k by auto
  have v1: "cell_dofs interval_ufc ?h ?cm ?c ! 1 = 2" by code_simp
  have v2: "cell_dofs interval_ufc ?h ?m ?c ! 1 = 6" by code_simp
  from run rt v1 v2 show ?thesis by simp
qed

section \<open>Collapse and the table it is handed\<close>

lemma collapse_after_new:
  assumes "new_UFCDofMap U h (ufc_dofmap this) mesh = Inr (h', collapsed)"
  shows "collapse U h this table mesh =
           (case collapse_cells U h' this collapsed (cells mesh)
                   (replicate (unat (max_local_dimension U h' this)) 0)
                   (replicate (unat (max_local_dimension U h' collapsed)) 0) Map.empty of
              (Some e, table') \<Rightarrow> (Inl e, table')
            | (None, table') \<Rightarrow> (Inr (h', collapsed), table'))"
proof -
  note n = new_UFCDofMap_offset [OF assms]
  have "global_dimension U h' collapsed = global_dimension U h' this"
    using n by (simp add: global_dimension_def)
  then show ?thesis
    using n assms by (simp add: collapse_def)
qed

text \<open>
  The claim as written fails when the constructor of the collapsed map raises: that
  happens before the table is cleared, so the entry the table held before the call is
  still there after it, and the table after the call depends on what it held.
\<close>

theorem collapse_clears_table_counterexample:
  "fst (collapse interval_ufc [(Vertex, 4)]
          \<lparr>ufc_dofmap = 0, ufc_mesh = UFCMesh_init interval_mesh, ufc_offset = 4\<rparr>
          (Map.empty(100 \<mapsto> 200)) unordered_mesh) = Inl OrderingError \<and>
   snd (collapse interval_ufc [(Vertex, 4)]
          \<lparr>ufc_dofmap = 0, ufc_mesh = UFCMesh_init interval_mesh, ufc_offset = 4\<rparr>
          (Map.empty(100 \<mapsto> 200)) unordered_mesh) 100 = Some 200 \<and>
   snd (collapse interval_ufc [(Vertex, 4)]
          \<lparr>ufc_dofmap = 0, ufc_mesh = UFCMesh_init interval_mesh, ufc_offset = 4\<rparr>
          Map.empty unordered_mesh) 100 = None"
  by code_simp

text \<open>
  Claim C10, as amended. \<^verbatim>\<open>collapse\<close> clears the table after it has constructed the
  collapsed map. When that constructor succeeds, the call does not depend on the table
  it is handed, and, for a descriptor that keeps its contract on the cells of the mesh,
  it returns and the table after it holds exactly the writes of the cell pass of this
  call, whatever the table held before. When the constructor raises, \<^verbatim>\<open>collapse\<close>
  raises the same error and the table is as it was before the call.
\<close>

theorem collapse_clears_table:
  "(new_UFCDofMap U h (ufc_dofmap this) mesh = Inl e \<longrightarrow>
      collapse U h this table mesh = (Inl e, table)) \<and>
   (new_UFCDofMap U h (ufc_dofmap this) mesh = Inr (h', collapsed) \<longrightarrow>
      collapse U h this table mesh = collapse U h this Map.empty mesh \<and>
      (ufc_tabulates U (h' ! ufc_dofmap this) (ufc_mesh this) (cells mesh) \<and>
       ufc_tabulates U (h' ! ufc_dofmap this) (UFCMesh_init mesh) (cells mesh) \<longrightarrow>
         collapse U h this table mesh =
           (Inr (h', collapsed),
            map_of (rev (collapse_writes U h' this collapsed (cells mesh))))))"
proof (intro conjI impI)
  assume "new_UFCDofMap U h (ufc_dofmap this) mesh = Inl e"
  then show "collapse U h this table mesh = (Inl e, table)"
    by (auto simp: collapse_def new_UFCDofMap_def)
next
  assume new: "new_UFCDofMap U h (ufc_dofmap this) mesh = Inr (h', collapsed)"
  show "collapse U h this table mesh = collapse U h this Map.empty mesh"
    by (simp add: collapse_after_new [OF new])
  assume t: "ufc_tabulates U (h' ! ufc_dofmap this) (ufc_mesh this) (cells mesh) \<and>
             ufc_tabulates U (h' ! ufc_dofmap this) (UFCMesh_init mesh) (cells mesh)"
  note n = new_UFCDofMap_offset [OF new]
  have p': "ufc_dofmap this < length h'"
    using n by (metis length_list_update)
  have same: "max_local_dimension U h' collapsed = max_local_dimension U h' this"
    using n by (simp add: max_local_dimension_def)
  have tc: "ufc_tabulates U (h' ! ufc_dofmap this) (ufc_mesh collapsed) (cells mesh)"
    using t n by simp
  have "collapse_cells U h' this collapsed (cells mesh)
          (replicate (unat (max_local_dimension U h' this)) 0)
          (replicate (unat (max_local_dimension U h' collapsed)) 0) Map.empty =
        (None, map_of (rev (collapse_writes U h' this collapsed (cells mesh))))"
    using collapse_cells_Inr [OF p' _ conjunct1 [OF t] tc, where cs = "cells mesh"
        and buf = "replicate (unat (max_local_dimension U h' this)) 0"
        and cbuf = "replicate (unat (max_local_dimension U h' collapsed)) 0" and m = Map.empty]
      n same by simp
  then show "collapse U h this table mesh =
           (Inr (h', collapsed),
            map_of (rev (collapse_writes U h' this collapsed (cells mesh))))"
    by (simp add: collapse_after_new [OF new])
qed

theorem collapse_clears_table_witness:
  "collapse interval_ufc [(Vertex, 4)]
     \<lparr>ufc_dofmap = 0, ufc_mesh = UFCMesh_init interval_mesh, ufc_offset = 4\<rparr>
     (Map.empty(100 \<mapsto> 200)) interval_mesh =
   collapse interval_ufc [(Vertex, 4)]
     \<lparr>ufc_dofmap = 0, ufc_mesh = UFCMesh_init interval_mesh, ufc_offset = 4\<rparr>
     Map.empty interval_mesh \<and>
   fst (collapse interval_ufc [(Vertex, 4)]
     \<lparr>ufc_dofmap = 0, ufc_mesh = UFCMesh_init interval_mesh, ufc_offset = 4\<rparr>
     (Map.empty(100 \<mapsto> 200)) interval_mesh) =
     Inr ([(Vertex, 4)],
          \<lparr>ufc_dofmap = 0, ufc_mesh = UFCMesh_init interval_mesh, ufc_offset = 0\<rparr>) \<and>
   snd (collapse interval_ufc [(Vertex, 4)]
     \<lparr>ufc_dofmap = 0, ufc_mesh = UFCMesh_init interval_mesh, ufc_offset = 4\<rparr>
     (Map.empty(100 \<mapsto> 200)) interval_mesh) =
     map_of (rev (collapse_writes interval_ufc [(Vertex, 4)]
       \<lparr>ufc_dofmap = 0, ufc_mesh = UFCMesh_init interval_mesh, ufc_offset = 4\<rparr>
       \<lparr>ufc_dofmap = 0, ufc_mesh = UFCMesh_init interval_mesh, ufc_offset = 0\<rparr>
       (cells interval_mesh))) \<and>
   map_of (rev (collapse_writes interval_ufc [(Vertex, 4)]
       \<lparr>ufc_dofmap = 0, ufc_mesh = UFCMesh_init interval_mesh, ufc_offset = 4\<rparr>
       \<lparr>ufc_dofmap = 0, ufc_mesh = UFCMesh_init interval_mesh, ufc_offset = 0\<rparr>
       (cells interval_mesh))) 100 = None \<and>
   collapse interval_ufc [(Vertex, 4)]
     \<lparr>ufc_dofmap = 0, ufc_mesh = UFCMesh_init interval_mesh, ufc_offset = 4\<rparr>
     (Map.empty(100 \<mapsto> 200)) unordered_mesh = (Inl OrderingError, Map.empty(100 \<mapsto> 200))"
proof -
  let ?h = "[(Vertex, 4 :: uint)]"
  let ?m = "\<lparr>ufc_dofmap = 0, ufc_mesh = UFCMesh_init interval_mesh, ufc_offset = 4\<rparr>"
  let ?cm = "\<lparr>ufc_dofmap = 0, ufc_mesh = UFCMesh_init interval_mesh, ufc_offset = 0\<rparr>"
  have new: "new_UFCDofMap interval_ufc ?h (ufc_dofmap ?m) interval_mesh = Inr (?h, ?cm)"
    by code_simp
  have t: "ufc_tabulates interval_ufc (?h ! ufc_dofmap ?m) (ufc_mesh ?m) (cells interval_mesh) \<and>
           ufc_tabulates interval_ufc (?h ! ufc_dofmap ?m) (UFCMesh_init interval_mesh)
             (cells interval_mesh)"
    by code_simp
  have fails: "new_UFCDofMap interval_ufc ?h (ufc_dofmap ?m) unordered_mesh = Inl OrderingError"
    by code_simp
  have none: "map_of (rev (collapse_writes interval_ufc ?h ?m ?cm (cells interval_mesh))) 100 = None"
    by code_simp
  from collapse_clears_table [of interval_ufc ?h ?m interval_mesh _ "Map.empty(100 \<mapsto> 200)" ?h ?cm]
    new t
  have ok: "collapse interval_ufc ?h ?m (Map.empty(100 \<mapsto> 200)) interval_mesh =
              collapse interval_ufc ?h ?m Map.empty interval_mesh"
    and tbl: "collapse interval_ufc ?h ?m (Map.empty(100 \<mapsto> 200)) interval_mesh =
              (Inr (?h, ?cm),
               map_of (rev (collapse_writes interval_ufc ?h ?m ?cm (cells interval_mesh))))"
    by blast+
  from collapse_clears_table [of interval_ufc ?h ?m unordered_mesh OrderingError
      "Map.empty(100 \<mapsto> 200)"] fails
  have bad: "collapse interval_ufc ?h ?m (Map.empty(100 \<mapsto> 200)) unordered_mesh =
               (Inl OrderingError, Map.empty(100 \<mapsto> 200))"
    by blast
  have outcome: "fst (collapse interval_ufc ?h ?m (Map.empty(100 \<mapsto> 200)) interval_mesh) =
                   Inr (?h, ?cm)"
    by (simp only: tbl fst_conv)
  have after: "snd (collapse interval_ufc ?h ?m (Map.empty(100 \<mapsto> 200)) interval_mesh) =
                 map_of (rev (collapse_writes interval_ufc ?h ?m ?cm (cells interval_mesh)))"
    by (simp only: tbl snd_conv)
  from ok outcome after none bad show ?thesis
    by blast
qed

section \<open>Sub-dofmap extraction in one call and in two\<close>

text \<open>
  The member \<^verbatim>\<open>extract_sub_dofmap\<close> does not read the offset of the map it is called
  on: whatever that offset is, the result is the same.
\<close>

lemma extract_sub_dofmap_ignores_offset:
  "extract_sub_dofmap U h (this\<lparr>ufc_offset := x\<rparr>) component mesh =
   extract_sub_dofmap U h this component mesh"
  by (simp add: extract_sub_dofmap_def)

text \<open>
  Claim C1 does not hold of the code. The member \<^verbatim>\<open>extract_sub_dofmap\<close> starts the
  offset at 0 and never reads the offset of the map it is called on, while the recursive
  helper carries the offset from level to level. On the interval mesh, for the mixed
  element of a vertex element and a mixed element: the path \<open>[1, 0]\<close> in one call gives
  offset 4 and the dofs 4..7; the path \<open>[1]\<close> gives offset 4, and the path \<open>[0]\<close> from
  that map gives offset 0 and the dofs 0..3.
\<close>

theorem extract_sub_dofmap_two_steps:
  "new_UFCDofMap interval_ufc [(Mixed Vertex (Mixed Vertex Edge), 0)] 0 interval_mesh =
     Inr ([(Mixed Vertex (Mixed Vertex Edge), 11)],
          \<lparr>ufc_dofmap = 0, ufc_mesh = UFCMesh_init interval_mesh, ufc_offset = 0\<rparr>) \<and>
   extract_sub_dofmap interval_ufc [(Mixed Vertex (Mixed Vertex Edge), 11)]
     \<lparr>ufc_dofmap = 0, ufc_mesh = UFCMesh_init interval_mesh, ufc_offset = 0\<rparr> [1, 0] interval_mesh =
     Inr ([(Mixed Vertex (Mixed Vertex Edge), 11), (Vertex, 4)],
          \<lparr>ufc_dofmap = 1, ufc_mesh = UFCMesh_init interval_mesh, ufc_offset = 4\<rparr>) \<and>
   extract_sub_dofmap interval_ufc [(Mixed Vertex (Mixed Vertex Edge), 11)]
     \<lparr>ufc_dofmap = 0, ufc_mesh = UFCMesh_init interval_mesh, ufc_offset = 0\<rparr> [1] interval_mesh =
     Inr ([(Mixed Vertex (Mixed Vertex Edge), 11), (Mixed Vertex Edge, 7)],
          \<lparr>ufc_dofmap = 1, ufc_mesh = UFCMesh_init interval_mesh, ufc_offset = 4\<rparr>) \<and>
   extract_sub_dofmap interval_ufc
     [(Mixed Vertex (Mixed Vertex Edge), 11), (Mixed Vertex Edge, 7)]
     \<lparr>ufc_dofmap = 1, ufc_mesh = UFCMesh_init interval_mesh, ufc_offset = 4\<rparr> [0] interval_mesh =
     Inr ([(Mixed Vertex (Mixed Vertex Edge), 11), (Mixed Vertex Edge, 7), (Vertex, 4)],
          \<lparr>ufc_dofmap = 2, ufc_mesh = UFCMesh_init interval_mesh, ufc_offset = 0\<rparr>) \<and>
   map (cell_dofs interval_ufc [(Mixed Vertex (Mixed Vertex Edge), 11), (Vertex, 4)]
          \<lparr>ufc_dofmap = 1, ufc_mesh = UFCMesh_init interval_mesh, ufc_offset = 4\<rparr>)
     (cells interval_mesh) = [[4, 5], [5, 6], [6, 7]] \<and>
   map (cell_dofs interval_ufc
          [(Mixed Vertex (Mixed Vertex Edge), 11), (Mixed Vertex Edge, 7), (Vertex, 4)]
          \<lparr>ufc_dofmap = 2, ufc_mesh = UFCMesh_init interval_mesh, ufc_offset = 0\<rparr>)
     (cells interval_mesh) = [[0, 1], [1, 2], [2, 3]]"
  by code_simp

end
